theory Spec2Isabelle
  imports Main "HOL-Library.Sublist"
begin

section \<open>Strings of the platform\<close>

text \<open>
  A string of the program is modelled as a \<^typ>\<open>string\<close>, one \<^typ>\<open>char\<close> per
  code point, read as ISO 8859-1 (code points 0 to 255). On that range the built-in
  \<^verbatim>\<open>String.prototype.toLowerCase\<close> maps the letters A-Z and the letters
  0xC0-0xDE other than the multiplication sign 0xD7 to the code point 32 above, and leaves
  every other code point alone. Code points above 255 are outside the model.
\<close>

definition is_upper :: "char \<Rightarrow> bool" where
  "is_upper c =
     (let n = (of_char c :: nat)
      in (65 \<le> n \<and> n \<le> 90) \<or> (192 \<le> n \<and> n \<le> 222 \<and> n \<noteq> 215))"

text \<open>
  The upper-case code points all have bit 5 (value 32) clear, so adding 32 is setting
  that bit; lemma \<open>lower_char_plus_32\<close> below states it.
\<close>

fun lower_char :: "char \<Rightarrow> char" where
  "lower_char (Char b0 b1 b2 b3 b4 b5 b6 b7) =
     (if is_upper (Char b0 b1 b2 b3 b4 b5 b6 b7)
      then Char b0 b1 b2 b3 b4 True b6 b7
      else Char b0 b1 b2 b3 b4 b5 b6 b7)"

definition toLowerCase :: "string \<Rightarrow> string" where
  "toLowerCase s = map lower_char s"

text \<open>\<^verbatim>\<open>s.includes(sub)\<close>: \<open>sub\<close> occurs in \<open>s\<close> as a contiguous block.\<close>

fun str_includes :: "string \<Rightarrow> string \<Rightarrow> bool" where
  "str_includes [] sub = (sub = [])"
| "str_includes (c # cs) sub = (prefix sub (c # cs) \<or> str_includes cs sub)"

text \<open>
  White space and line terminators of the language on the modelled range: tab, line
  feed, vertical tab, form feed, carriage return, space and no-break space.
  \<^verbatim>\<open>String.prototype.trim\<close> removes them at both ends.
\<close>

definition is_line_terminator :: "char \<Rightarrow> bool" where
  "is_line_terminator c = (of_char c = (10::nat) \<or> of_char c = (13::nat))"

definition is_js_space :: "char \<Rightarrow> bool" where
  "is_js_space c =
     (let n = (of_char c :: nat) in (9 \<le> n \<and> n \<le> 13) \<or> n = 32 \<or> n = 160)"

definition trim :: "string \<Rightarrow> string" where
  "trim s = rev (dropWhile is_js_space (rev (dropWhile is_js_space s)))"

definition is_digit :: "char \<Rightarrow> bool" where
  "is_digit c = (let n = (of_char c :: nat) in 48 \<le> n \<and> n \<le> 57)"

text \<open>The integer a string of decimal digits denotes.\<close>

definition digit_val :: "char \<Rightarrow> int" where
  "digit_val c = int (of_char c) - 48"

definition digits_value :: "string \<Rightarrow> int" where
  "digits_value ds = foldl (\<lambda>n c. 10 * n + digit_val c) 0 ds"

section \<open>Values of the language\<close>

text \<open>
  The values that flow through the pipeline: what \<^verbatim>\<open>JSON.parse\<close> can return,
  \<^verbatim>\<open>undefined\<close>, and the numbers \<^verbatim>\<open>parseInt\<close> can return. \<open>JNum n\<close> is
  the Number whose value is the integer \<open>n\<close>, \<open>JInfinity\<close> the Number
  \<^verbatim>\<open>Infinity\<close>; numbers that are not integers do not occur in what is modelled.
  An object is its list of properties.
\<close>

datatype jsval =
    JUndefined
  | JNull
  | JBool bool
  | JNum int
  | JInfinity
  | JStr string
  | JArr "jsval list"
  | JObj "(string \<times> jsval) list"

text \<open>What a \<^verbatim>\<open>throw\<close> carries: an \<^verbatim>\<open>Error\<close> with its message, or the
  \<^verbatim>\<open>TypeError\<close> of the runtime.\<close>

datatype js_error = Error string | TypeError

text \<open>
  \<^verbatim>\<open>v.toLowerCase()\<close> on a value of unknown type: only a string has the method; on
  anything else the call throws a \<^verbatim>\<open>TypeError\<close>.
\<close>

fun call_toLowerCase :: "jsval \<Rightarrow> js_error + string" where
  "call_toLowerCase (JStr s) = Inr (toLowerCase s)"
| "call_toLowerCase _ = Inl TypeError"

text \<open>
  A Number is a double. The Number for an integer \<open>n \<ge> 0\<close>: an integer of at most 53
  bits is itself; a longer one is rounded to 53 significant bits, to the nearest and on a
  tie to the even one, and from \<open>2 ^ 1024\<close> on the result is \<^verbatim>\<open>Infinity\<close>.
  \<open>bit_length n\<close> is the number of bits of \<open>n\<close>.
\<close>

function bit_length :: "int \<Rightarrow> nat" where
  "bit_length n = (if n \<le> 0 then 0 else Suc (bit_length (n div 2)))"
  by pat_completeness auto
termination
  by (relation "measure nat") auto

declare bit_length.simps [simp del]

definition Number_of_int :: "int \<Rightarrow> jsval" where
  "Number_of_int n =
     (if bit_length n \<le> 53 then JNum n
      else
        (let e = bit_length n - 53;
             q = n div 2 ^ e;
             r = n mod 2 ^ e;
             q' = (if 2 ^ e < 2 * r \<or> (2 * r = 2 ^ e \<and> odd q) then q + 1 else q)
         in if 2 ^ 1024 \<le> q' * 2 ^ e then JInfinity else JNum (q' * 2 ^ e)))"

text \<open>
  \<^verbatim>\<open>parseInt(ds, 10)\<close> on a string of decimal digits: the Number for the integer
  the digits denote, as the runtime of the platform computes it (correctly rounded).
\<close>

definition parseInt10 :: "string \<Rightarrow> jsval" where
  "parseInt10 ds = Number_of_int (digits_value ds)"

section \<open>The regular expression of the temperature rule\<close>

text \<open>
  The expression \<^verbatim>\<open>/set.*temperature.*to (\d+)/\<close> is a sequence of three kinds of
  item: a literal, the greedy \<^verbatim>\<open>.*\<close> (any run of characters other than line
  terminators) and the capturing greedy \<^verbatim>\<open>(\d+)\<close>. \<open>match_here\<close> is the
  backtracking matcher of the language anchored at the start of its input: a greedy item
  tries its longest extent first and gives characters back one at a time. It returns the
  captured groups.
\<close>

datatype rx_item = Lit string | AnyStar | DigitsPlus

fun first_success :: "(nat \<Rightarrow> 'a option) \<Rightarrow> nat list \<Rightarrow> 'a option" where
  "first_success f [] = None"
| "first_success f (k # ks) =
     (case f k of Some r \<Rightarrow> Some r | None \<Rightarrow> first_success f ks)"

primrec match_here :: "rx_item list \<Rightarrow> string \<Rightarrow> string list option" where
  "match_here [] = (\<lambda>s. Some [])"
| "match_here (r # rs) = (\<lambda>s.
     case r of
       Lit l \<Rightarrow>
         if prefix l s then match_here rs (drop (length l) s) else None
     | AnyStar \<Rightarrow>
         first_success (\<lambda>k. match_here rs (drop k s))
           (rev [0 ..< Suc (length (takeWhile (\<lambda>c. \<not> is_line_terminator c) s))])
     | DigitsPlus \<Rightarrow>
         first_success (\<lambda>k. map_option (\<lambda>caps. take k s # caps) (match_here rs (drop k s)))
           (rev [1 ..< Suc (length (takeWhile is_digit s))]))"

text \<open>
  \<^verbatim>\<open>s.match(re)\<close> for an expression without the global flag: the match attempt
  at the leftmost start index that succeeds; \<open>None\<close> is the \<^verbatim>\<open>null\<close> of no match.
\<close>

definition js_match :: "rx_item list \<Rightarrow> string \<Rightarrow> string list option" where
  "js_match re s = first_success (\<lambda>i. match_here re (drop i s)) [0 ..< Suc (length s)]"

definition temperature_re :: "rx_item list" where
  "temperature_re =
     [Lit ''set'', AnyStar, Lit ''temperature'', AnyStar, Lit ''to '', DigitsPlus]"

section \<open>Accessories, services, characteristics\<close>

text \<open>
  The two characteristic types the platform tells apart, by the UUIDs the accessory
  protocol assigns to \<^verbatim>\<open>Characteristic.On\<close> and
  \<^verbatim>\<open>Characteristic.TargetTemperature\<close>.
\<close>

definition On_UUID :: string where
  "On_UUID = ''00000025-0000-1000-8000-0026BB765291''"

definition TargetTemperature_UUID :: string where
  "TargetTemperature_UUID = ''00000035-0000-1000-8000-0026BB765291''"

record characteristic =
  char_UUID :: string

text \<open>The class a service object is an instance of.\<close>

datatype service_kind = Lightbulb | Switch | Thermostat | Fan | Outlet | OtherKind

record service =
  svc_displayName :: string
  svc_kind :: service_kind

record accessory =
  acc_displayName :: string
  acc_services :: "service list"

text \<open>
  \<^verbatim>\<open>service.getCharacteristic(C)\<close> with a characteristic class \<open>C\<close> hands back the
  service's characteristic of that type (the host adds one when the service has none),
  so the result always carries the UUID of \<open>C\<close>.
\<close>

definition getCharacteristic :: "service \<Rightarrow> string \<Rightarrow> characteristic" where
  "getCharacteristic s uuid = \<lparr>char_UUID = uuid\<rparr>"

section \<open>The dispatcher\<close>

text \<open>
  What a command leaves behind, in order: the call to the completion service, the write
  to a characteristic, and the lines of the log (one constructor per message of the
  source, carrying the values the message interpolates).
\<close>

datatype event =
    RemoteCall string
      \<comment> \<open>\<^verbatim>\<open>openai.createCompletion\<close> called with this prompt\<close>
  | SetValue accessory service characteristic jsval
      \<comment> \<open>\<^verbatim>\<open>characteristic.setValue(value)\<close>\<close>
  | Executing jsval jsval
      \<comment> \<open>info: Executing 'action' on 'device'\<close>
  | NowSet jsval characteristic
      \<comment> \<open>info: The device is now set to currentValue, the \<^verbatim>\<open>value\<close> read from
         this characteristic after the write\<close>
  | CouldNotDetermineValue jsval
      \<comment> \<open>error: Could not determine value for action: action\<close>
  | CharacteristicNotFound string
      \<comment> \<open>error: Characteristic not found for service: displayName\<close>
  | ServiceNotFound jsval
      \<comment> \<open>error: Service not found on accessory: device\<close>
  | AccessoryNotFound jsval
      \<comment> \<open>error: Accessory not found: device\<close>
  | ErrorProcessingCommand js_error
      \<comment> \<open>error: Error processing command: error.message\<close>
  | ReceivedCommand string
      \<comment> \<open>info: Received command: command\<close>
  | ErrorExecutingCommand js_error
      \<comment> \<open>error: Error executing command: error.message\<close>

text \<open>
  \<^verbatim>\<open>xs.find(p)\<close> where the callback may throw: the first element the callback accepts;
  a throw of the callback ends the search.
\<close>

fun array_find :: "('a \<Rightarrow> js_error + bool) \<Rightarrow> 'a list \<Rightarrow> js_error + 'a option" where
  "array_find p [] = Inr None"
| "array_find p (x # xs) =
     (case p x of
        Inl e \<Rightarrow> Inl e
      | Inr b \<Rightarrow> if b then Inr (Some x) else array_find p xs)"

text \<open>The callback of both searches:
  \<^verbatim>\<open>x.displayName.toLowerCase() === name.toLowerCase()\<close>.\<close>

definition name_matches :: "string \<Rightarrow> jsval \<Rightarrow> js_error + bool" where
  "name_matches displayName name =
     (case call_toLowerCase name of
        Inl e \<Rightarrow> Inl e
      | Inr n \<Rightarrow> Inr (toLowerCase displayName = n))"

definition findAccessoryByName :: "accessory list \<Rightarrow> jsval \<Rightarrow> js_error + accessory option" where
  "findAccessoryByName accessories name =
     array_find (\<lambda>acc. name_matches (acc_displayName acc) name) accessories"

text \<open>The search \<^verbatim>\<open>accessory.services.find(...)\<close> inside \<open>executeAction\<close>.\<close>

definition findService :: "accessory \<Rightarrow> jsval \<Rightarrow> js_error + service option" where
  "findService acc device =
     array_find (\<lambda>s. name_matches (svc_displayName s) device) (acc_services acc)"

definition getCharacteristicForService :: "service \<Rightarrow> characteristic option" where
  "getCharacteristicForService s =
     (if svc_kind s = Lightbulb \<or> svc_kind s = Switch then Some (getCharacteristic s On_UUID)
      else if svc_kind s = Thermostat then Some (getCharacteristic s TargetTemperature_UUID)
      else if svc_kind s = Fan then Some (getCharacteristic s On_UUID)
      else if svc_kind s = Outlet then Some (getCharacteristic s On_UUID)
      else None)"

text \<open>
  \<open>determineValueForAction\<close>: the value to set, \<open>JNull\<close> when none could be
  determined; \<open>Inl\<close> when lowering the action throws. \<open>temperature_rule\<close> is the
  second \<^verbatim>\<open>if\<close> of the function with the final \<^verbatim>\<open>return null\<close>; the test
  \<open>ds \<noteq> []\<close> is the truthiness of \<^verbatim>\<open>matches[1]\<close>.
\<close>

definition temperature_rule :: "string \<Rightarrow> characteristic \<Rightarrow> jsval" where
  "temperature_rule actionLower c =
     (if char_UUID c = TargetTemperature_UUID then
        (case js_match temperature_re actionLower of
           Some (ds # _) \<Rightarrow> if ds \<noteq> [] then parseInt10 ds else JNull
         | _ \<Rightarrow> JNull)
      else JNull)"

definition determineValueForAction :: "jsval \<Rightarrow> characteristic \<Rightarrow> js_error + jsval" where
  "determineValueForAction action c =
     (case call_toLowerCase action of
        Inl e \<Rightarrow> Inl e
      | Inr actionLower \<Rightarrow>
          if char_UUID c = On_UUID then
            if str_includes actionLower ''turn on'' \<or> str_includes actionLower ''switch on''
            then Inr (JBool True)
            else if str_includes actionLower ''turn off'' \<or> str_includes actionLower ''switch off''
            then Inr (JBool False)
            else Inr (temperature_rule actionLower c)
          else Inr (temperature_rule actionLower c))"

text \<open>
  \<^verbatim>\<open>const { action, device } = actionData\<close>: destructuring \<^verbatim>\<open>null\<close> or
  \<^verbatim>\<open>undefined\<close> throws; an object gives its two properties, \<^verbatim>\<open>undefined\<close> for
  a missing one; any other value has neither property.
\<close>

definition own_prop :: "(string \<times> jsval) list \<Rightarrow> string \<Rightarrow> jsval" where
  "own_prop ps k = (case map_of ps k of Some v \<Rightarrow> v | None \<Rightarrow> JUndefined)"

fun destructure :: "jsval \<Rightarrow> js_error + (jsval \<times> jsval)" where
  "destructure JUndefined = Inl TypeError"
| "destructure JNull = Inl TypeError"
| "destructure (JObj ps) = Inr (own_prop ps ''action'', own_prop ps ''device'')"
| "destructure _ = Inr (JUndefined, JUndefined)"

text \<open>
  \<open>executeAction\<close> returns the events it caused and how it ended: \<open>Inr ()\<close> for a
  normal return, \<open>Inl e\<close> for a throw. What the host makes of a written value is
  the host's business: the last line of the log is recorded by the characteristic whose
  \<^verbatim>\<open>value\<close> it reads back.
\<close>

definition executeAction :: "accessory list \<Rightarrow> jsval \<Rightarrow> event list \<times> (js_error + unit)" where
  "executeAction accessories actionData =
     (case destructure actionData of
        Inl e \<Rightarrow> ([], Inl e)
      | Inr (action, device) \<Rightarrow>
         (case findAccessoryByName accessories device of
            Inl e \<Rightarrow> ([], Inl e)
          | Inr None \<Rightarrow> ([AccessoryNotFound device], Inr ())
          | Inr (Some acc) \<Rightarrow>
             (case findService acc device of
                Inl e \<Rightarrow> ([Executing action device], Inl e)
              | Inr None \<Rightarrow> ([Executing action device, ServiceNotFound device], Inr ())
              | Inr (Some s) \<Rightarrow>
                 (case getCharacteristicForService s of
                    None \<Rightarrow>
                      ([Executing action device, CharacteristicNotFound (svc_displayName s)],
                       Inr ())
                  | Some c \<Rightarrow>
                     (case determineValueForAction action c of
                        Inl e \<Rightarrow> ([Executing action device], Inl e)
                      | Inr v \<Rightarrow>
                          if v \<noteq> JNull
                          then ([Executing action device, SetValue acc s c v, NowSet device c],
                                Inr ())
                          else ([Executing action device, CouldNotDetermineValue action],
                                Inr ()))))))"

section \<open>The resolver\<close>

text \<open>
  The prompt of \<open>processCommand\<close>, line by line; \<open>devicesJson\<close> is
  \<^verbatim>\<open>JSON.stringify(this.devicesInfo, null, 2)\<close>.
\<close>

definition nl :: string where
  "nl = [CHR 0x0A]"

definition build_prompt :: "string \<Rightarrow> string \<Rightarrow> string" where
  \<open>build_prompt devicesJson command =
     nl @
     ''You are an AI assistant for a smart home system. The user has the following devices:'' @ nl @
     nl @
     devicesJson @ nl @
     nl @
     ''Your task is to interpret user commands given in everyday language and output a JSON object with two properties: "action" and "device".'' @ nl @
     nl @
     ''Instructions:'' @ nl @
     nl @
     ''- "action": The intended action, such as "turn on", "turn off", "set temperature to", etc.'' @ nl @
     ''- "device": The name of the device or appliance the user wants to control.'' @ nl @
     ''- Use the device information provided to understand what the user is referring to.'' @ nl @
     nl @
     ''Please interpret the following command and output only the JSON object without any additional text:'' @ nl @
     nl @
     ''"'' @ command @ ''"'' @ nl\<close>

text \<open>
  The two functions of the runtime and of the client library are parameters:
  \<open>JSON_parse\<close> (\<open>None\<close> when \<^verbatim>\<open>JSON.parse\<close> throws) and
  \<open>createCompletion\<close>, which gets the prompt and either rejects with an error or
  resolves to a response, of which the code reads
  \<^verbatim>\<open>response.data?.choices?.[0]?.text\<close> (\<open>None\<close> when that is \<^verbatim>\<open>undefined\<close>).
\<close>

type_synonym json_parser = "string \<Rightarrow> jsval option"
type_synonym completion_service = "string \<Rightarrow> js_error + string option"

definition processCommand ::
  "json_parser \<Rightarrow> completion_service \<Rightarrow> string \<Rightarrow> string \<Rightarrow> event list \<times> (js_error + jsval)" where
  "processCommand JSON_parse createCompletion devicesJson command =
     (let prompt = build_prompt devicesJson command
      in case createCompletion prompt of
           Inl e \<Rightarrow> ([RemoteCall prompt], Inl e)
         | Inr text \<Rightarrow>
            (case map_option trim text of
               None \<Rightarrow> ([RemoteCall prompt], Inl (Error ''No response from AI''))
             | Some result \<Rightarrow>
                 if result = [] then ([RemoteCall prompt], Inl (Error ''No response from AI''))
                 else
                  (case JSON_parse result of
                     None \<Rightarrow>
                       ([RemoteCall prompt],
                        Inl (Error (''Failed to parse AI response: '' @ result)))
                   | Some v \<Rightarrow> ([RemoteCall prompt], Inr v))))"

section \<open>Command handling and the HTTP endpoint\<close>

text \<open>
  \<open>handleUserCommand\<close> runs the resolver and then the dispatcher inside one
  \<^verbatim>\<open>try\<close>; its \<^verbatim>\<open>catch\<close> logs the error.
\<close>

definition handleUserCommand ::
  "json_parser \<Rightarrow> completion_service \<Rightarrow> string \<Rightarrow> accessory list \<Rightarrow> string
     \<Rightarrow> event list \<times> (js_error + unit)" where
  "handleUserCommand JSON_parse createCompletion devicesJson accessories command =
     (case processCommand JSON_parse createCompletion devicesJson command of
        (ev1, Inl e) \<Rightarrow> (ev1 @ [ErrorProcessingCommand e], Inr ())
      | (ev1, Inr actionData) \<Rightarrow>
         (case executeAction accessories actionData of
            (ev2, Inl e) \<Rightarrow> (ev1 @ ev2 @ [ErrorProcessingCommand e], Inr ())
          | (ev2, Inr u) \<Rightarrow> (ev1 @ ev2, Inr ())))"

record http_response =
  status :: nat
  body :: string

text \<open>The handler of \<^verbatim>\<open>POST /command\<close>.\<close>

definition post_command ::
  "json_parser \<Rightarrow> completion_service \<Rightarrow> string \<Rightarrow> accessory list \<Rightarrow> string
     \<Rightarrow> event list \<times> http_response" where
  "post_command JSON_parse createCompletion devicesJson accessories command =
     (case handleUserCommand JSON_parse createCompletion devicesJson accessories command of
        (ev, Inr u) \<Rightarrow>
          (ReceivedCommand command # ev,
           \<lparr>status = 200, body = ''Command executed successfully.''\<rparr>)
      | (ev, Inl e) \<Rightarrow>
          (ReceivedCommand command # ev @ [ErrorExecutingCommand e],
           \<lparr>status = 500, body = ''Error executing command.''\<rparr>))"

section \<open>Notions of the specification\<close>

text \<open>
  Two strings are equal up to letter case when they have the same length and, position by
  position, the same character or an upper-case letter and its lower-case form.
\<close>

definition same_letter :: "char \<Rightarrow> char \<Rightarrow> bool" where
  "same_letter c d =
     (c = d \<or> (is_upper c \<and> d = lower_char c) \<or> (is_upper d \<and> c = lower_char d))"

definition equal_up_to_case :: "string \<Rightarrow> string \<Rightarrow> bool" where
  "equal_up_to_case a b = list_all2 same_letter a b"

text \<open>The on-phrases and the off-phrases of the power rule, as contiguous blocks.\<close>

definition on_phrase :: "string \<Rightarrow> bool" where
  "on_phrase s = (sublist ''turn on'' s \<or> sublist ''switch on'' s)"

definition off_phrase :: "string \<Rightarrow> bool" where
  "off_phrase s = (sublist ''turn off'' s \<or> sublist ''switch off'' s)"

text \<open>
  The shape "set ... temperature ... to <integer>". \<open>phrase_parts\<close> splits \<open>s\<close>
  into what precedes the phrase, the three keywords with the two infixes between them,
  the digits \<open>ds\<close> and the rest: the infixes stay on one line, and \<open>ds\<close> is the
  whole run of decimal digits that follows "to ".
\<close>

abbreviation one_line :: "string \<Rightarrow> bool" where
  "one_line m \<equiv> list_all (\<lambda>c. \<not> is_line_terminator c) m"

definition phrase_parts ::
  "string \<Rightarrow> string \<Rightarrow> string \<Rightarrow> string \<Rightarrow> string \<Rightarrow> string \<Rightarrow> bool" where
  "phrase_parts s pre m1 m2 ds rest =
     (s = pre @ ''set'' @ m1 @ ''temperature'' @ m2 @ ''to '' @ ds @ rest
      \<and> one_line m1 \<and> one_line m2
      \<and> ds \<noteq> [] \<and> list_all is_digit ds
      \<and> (case rest of [] \<Rightarrow> True | c # _ \<Rightarrow> \<not> is_digit c))"

definition temperature_phrase :: "string \<Rightarrow> string \<Rightarrow> bool" where
  "temperature_phrase s ds = (\<exists>pre m1 m2 rest. phrase_parts s pre m1 m2 ds rest)"

text \<open>
  The integer that is extracted when \<open>s\<close> has several such phrases: the digits of the
  phrase that starts leftmost and, among the phrases that start there, has its "to "
  rightmost.
\<close>

definition extracted_digits :: "string \<Rightarrow> string \<Rightarrow> bool" where
  "extracted_digits s ds =
     (\<exists>pre m1 m2 rest.
        phrase_parts s pre m1 m2 ds rest
        \<and> (\<forall>pre' m1' m2' ds' rest'.
              phrase_parts s pre' m1' m2' ds' rest' \<longrightarrow> length pre \<le> length pre')
        \<and> (\<forall>m1' m2' ds' rest'.
              phrase_parts s pre m1' m2' ds' rest'
              \<longrightarrow> length m1' + length m2' \<le> length m1 + length m2))"

text \<open>The Intent with both string fields, and the test for having both.\<close>

definition intent :: "string \<Rightarrow> string \<Rightarrow> jsval" where
  "intent a d = JObj [(''action'', JStr a), (''device'', JStr d)]"

fun is_string :: "jsval \<Rightarrow> bool" where
  "is_string (JStr s) = True"
| "is_string _ = False"

definition has_both_fields :: "jsval \<Rightarrow> bool" where
  "has_both_fields v =
     (case v of
        JObj ps \<Rightarrow> is_string (own_prop ps ''action'') \<and> is_string (own_prop ps ''device'')
      | _ \<Rightarrow> False)"

text \<open>
  The invariant of the inventory: no two entries have names that are equal up to letter
  case.
\<close>

definition names_unique :: "accessory list \<Rightarrow> bool" where
  "names_unique accs =
     (\<forall>x\<in>set accs. \<forall>y\<in>set accs.
        equal_up_to_case (acc_displayName x) (acc_displayName y) \<longrightarrow> x = y)"

section \<open>Scenarios\<close>

text \<open>
  Inventory entries and collaborators for concrete runs. \<open>replies_with\<close> is a
  completion service that answers every prompt with the same text, \<open>rejects_with\<close>
  one whose call always fails; \<^verbatim>\<open>JSON.parse\<close> is given in a run as the table
  (\<open>map_of\<close>) of the texts it is asked about.
\<close>

definition replies_with :: "string \<Rightarrow> completion_service" where
  "replies_with text prompt = Inr (Some text)"

definition rejects_with :: "js_error \<Rightarrow> completion_service" where
  "rejects_with e prompt = Inl e"

definition living_room_light :: accessory where
  "living_room_light =
     \<lparr>acc_displayName = ''Living Room Light'',
      acc_services = [\<lparr>svc_displayName = ''Living Room Light'', svc_kind = Lightbulb\<rparr>]\<rparr>"

definition hall_lamp :: accessory where
  "hall_lamp =
     \<lparr>acc_displayName = ''Hall Lamp'',
      acc_services = [\<lparr>svc_displayName = ''Hall Lamp'', svc_kind = Lightbulb\<rparr>]\<rparr>"

definition hall_lamp_twin :: accessory where
  "hall_lamp_twin =
     \<lparr>acc_displayName = ''HALL LAMP'',
      acc_services = [\<lparr>svc_displayName = ''hall lamp'', svc_kind = Switch\<rparr>]\<rparr>"

definition ceiling_unit :: accessory where
  "ceiling_unit =
     \<lparr>acc_displayName = ''Ceiling'',
      acc_services =
        [\<lparr>svc_displayName = ''Fan motor'', svc_kind = Fan\<rparr>,
         \<lparr>svc_displayName = ''CEILING'', svc_kind = Lightbulb\<rparr>,
         \<lparr>svc_displayName = ''ceiling'', svc_kind = Fan\<rparr>]\<rparr>"

definition living_room :: accessory where
  "living_room =
     \<lparr>acc_displayName = ''Living Room'',
      acc_services = [\<lparr>svc_displayName = ''Light'', svc_kind = Lightbulb\<rparr>]\<rparr>"

definition garage_door :: accessory where
  "garage_door =
     \<lparr>acc_displayName = ''Garage Door'',
      acc_services = [\<lparr>svc_displayName = ''Garage Door'', svc_kind = OtherKind\<rparr>]\<rparr>"

definition desk_switch :: accessory where
  "desk_switch =
     \<lparr>acc_displayName = ''Desk'',
      acc_services = [\<lparr>svc_displayName = ''Desk'', svc_kind = Switch\<rparr>]\<rparr>"

definition hallway_thermostat :: accessory where
  "hallway_thermostat =
     \<lparr>acc_displayName = ''Hallway'',
      acc_services = [\<lparr>svc_displayName = ''Hallway'', svc_kind = Thermostat\<rparr>]\<rparr>"

section \<open>Lower case and equality up to case\<close>

lemma str_includes_sublist: "str_includes s sub = sublist sub s"
  by (induction s) (auto simp: sublist_Cons_right)

lemma lower_char_plus_32:
  "is_upper c \<Longrightarrow> (of_char (lower_char c) :: nat) = of_char c + 32"
  by (cases c) (auto simp: is_upper_def Let_def of_bool_def split: if_splits)

lemma lower_char_fixed: "\<not> is_upper c \<Longrightarrow> lower_char c = c"
  by (cases c) simp

lemma lower_char_not_upper: "\<not> is_upper (lower_char c)"
proof (cases "is_upper c")
  case True
  then have "(of_char (lower_char c) :: nat) = of_char c + 32"
    by (rule lower_char_plus_32)
  with True show ?thesis
    by (auto simp: is_upper_def Let_def)
next
  case False
  then show ?thesis by (simp add: lower_char_fixed)
qed

lemma lower_char_inj_upper:
  assumes "is_upper c" "is_upper d" "lower_char c = lower_char d"
  shows "c = d"
proof -
  have "(of_char (lower_char c) :: nat) = of_char (lower_char d)"
    by (simp only: assms(3))
  then have "(of_char c :: nat) + 32 = of_char d + 32"
    by (simp only: lower_char_plus_32 [OF assms(1)] lower_char_plus_32 [OF assms(2)])
  then show ?thesis by simp
qed

lemma lower_char_eq_iff: "lower_char c = lower_char d \<longleftrightarrow> same_letter c d"
proof (cases "is_upper c"; cases "is_upper d")
  assume "is_upper c" "is_upper d"
  then show ?thesis
    using lower_char_not_upper [of c] lower_char_not_upper [of d]
    by (auto simp: same_letter_def dest: lower_char_inj_upper)
next
  assume "is_upper c" "\<not> is_upper d"
  then show ?thesis
    using lower_char_not_upper [of c]
    by (auto simp: same_letter_def lower_char_fixed)
next
  assume "\<not> is_upper c" "is_upper d"
  then show ?thesis
    using lower_char_not_upper [of d]
    by (auto simp: same_letter_def lower_char_fixed)
next
  assume "\<not> is_upper c" "\<not> is_upper d"
  then show ?thesis
    by (auto simp: same_letter_def lower_char_fixed)
qed

lemma toLowerCase_eq_iff: "toLowerCase a = toLowerCase b \<longleftrightarrow> equal_up_to_case a b"
  unfolding toLowerCase_def equal_up_to_case_def
  by (induction a arbitrary: b) (auto simp: lower_char_eq_iff list_all2_Cons1 map_eq_Cons_conv; metis)+

lemma array_find_total:
  "array_find (\<lambda>x. Inr (P x)) xs = Inr (find P xs)"
  by (induction xs) auto

lemma name_matches_string:
  "name_matches dn (JStr n) = Inr (equal_up_to_case dn n)"
  by (simp add: name_matches_def toLowerCase_eq_iff)

lemma findAccessoryByName_string:
  "findAccessoryByName accs (JStr n) =
     Inr (find (\<lambda>a. equal_up_to_case (acc_displayName a) n) accs)"
  by (simp add: findAccessoryByName_def name_matches_string array_find_total)

lemma findService_string:
  "findService acc (JStr n) =
     Inr (find (\<lambda>s. equal_up_to_case (svc_displayName s) n) (acc_services acc))"
  by (simp add: findService_def name_matches_string array_find_total)

lemma equal_up_to_case_sym: "equal_up_to_case a b \<longleftrightarrow> equal_up_to_case b a"
  unfolding toLowerCase_eq_iff [symmetric] by auto

lemma equal_up_to_case_trans:
  "equal_up_to_case a b \<Longrightarrow> equal_up_to_case b c \<Longrightarrow> equal_up_to_case a c"
  unfolding toLowerCase_eq_iff [symmetric] by simp

section \<open>The matcher against the shape of the phrase\<close>

lemma first_success_None:
  "first_success f ks = None \<longleftrightarrow> (\<forall>k\<in>set ks. f k = None)"
  by (induction ks) (auto split: option.splits)

lemma match_here_Lit:
  "match_here (Lit l # rs) s = Some caps \<longleftrightarrow> (\<exists>t. s = l @ t \<and> match_here rs t = Some caps)"
  by (auto simp: prefix_def)

lemma length_takeWhile_append_ge:
  "list_all P m \<Longrightarrow> length m \<le> length (takeWhile P (m @ t))"
  by (induction m) auto

lemma match_here_AnyStar_None:
  assumes "match_here (AnyStar # rs) (m @ t) = None"
    and "list_all (\<lambda>c. \<not> is_line_terminator c) m"
  shows "match_here rs t = None"
proof -
  let ?n = "length (takeWhile (\<lambda>c. \<not> is_line_terminator c) (m @ t))"
  have eq: "match_here (AnyStar # rs) (m @ t) =
      first_success (\<lambda>k. match_here rs (drop k (m @ t))) (rev [0 ..< Suc ?n])"
    by (simp only: match_here.simps rx_item.case)
  have "length m \<in> set (rev [0 ..< Suc ?n])"
    using length_takeWhile_append_ge [OF assms(2), of t] by auto
  with assms(1) have "match_here rs (drop (length m) (m @ t)) = None"
    unfolding eq first_success_None by blast
  then show ?thesis by simp
qed

lemma match_here_DigitsPlus:
  "match_here [DigitsPlus] s =
     (if takeWhile is_digit s = [] then None else Some [takeWhile is_digit s])"
proof (cases "takeWhile is_digit s = []")
  case True
  then show ?thesis by simp
next
  case False
  then have "1 \<le> length (takeWhile is_digit s)"
    by (simp add: Suc_le_eq)
  moreover have "take (length (takeWhile is_digit s)) s = takeWhile is_digit s"
    by (metis append_eq_conv_conj takeWhile_dropWhile_id)
  ultimately show ?thesis using False by simp
qed

lemma takeWhile_split:
  "\<exists>rest. s = takeWhile P s @ rest \<and> (case rest of [] \<Rightarrow> True | c # _ \<Rightarrow> \<not> P c)"
proof -
  have "s = takeWhile P s @ dropWhile P s" by simp
  moreover have "(case dropWhile P s of [] \<Rightarrow> True | c # _ \<Rightarrow> \<not> P c)"
    by (metis (mono_tags, lifting) hd_dropWhile list.case_eq_if)
  ultimately show ?thesis by blast
qed


lemma match_here_Lit_append: "match_here (Lit l # rs) (l @ t) = match_here rs t"
  by simp

lemma first_success_append:
  "first_success f (xs @ ys) =
     (case first_success f xs of Some r \<Rightarrow> Some r | None \<Rightarrow> first_success f ys)"
  by (induction xs) (auto split: option.splits)

lemma first_success_least:
  "first_success f [0 ..< n] = Some r \<Longrightarrow> \<exists>i<n. f i = Some r \<and> (\<forall>j<i. f j = None)"
proof (induction n)
  case 0
  then show ?case by simp
next
  case (Suc n)
  show ?case
  proof (cases "first_success f [0 ..< n]")
    case None
    then have all: "\<forall>j<n. f j = None"
      by (simp add: first_success_None)
    from Suc.prems None have "f n = Some r"
      by (simp add: first_success_append split: option.splits)
    with all show ?thesis by blast
  next
    case (Some r')
    with Suc.prems have "r' = r"
      by (simp add: first_success_append)
    with Some Suc.IH obtain i where "i < n" "f i = Some r" "\<forall>j<i. f j = None"
      by blast
    then show ?thesis using less_Suc_eq by blast
  qed
qed

lemma first_success_greatest:
  "first_success f (rev [a ..< b]) = Some r
     \<Longrightarrow> \<exists>k. a \<le> k \<and> k < b \<and> f k = Some r \<and> (\<forall>j. k < j \<and> j < b \<longrightarrow> f j = None)"
proof (induction b)
  case 0
  then show ?case by simp
next
  case (Suc b)
  show ?case
  proof (cases "a \<le> b")
    case False
    with Suc.prems show ?thesis by simp
  next
    case True
    show ?thesis
    proof (cases "f b")
      case (Some r')
      with Suc.prems True have "f b = Some r" by simp
      with True show ?thesis
        by (metis less_Suc_eq lessI not_less_iff_gr_or_eq)
    next
      case None
      with Suc.prems True have "first_success f (rev [a ..< b]) = Some r" by simp
      from Suc.IH [OF this] obtain k
        where k: "a \<le> k" "k < b" "f k = Some r" "\<forall>j. k < j \<and> j < b \<longrightarrow> f j = None"
        by blast
      have "\<forall>j. k < j \<and> j < Suc b \<longrightarrow> f j = None"
        using k(4) None less_Suc_eq by auto
      with k show ?thesis using less_Suc_eq by blast
    qed
  qed
qed

lemma take_takeWhile_all:
  "k \<le> length (takeWhile P s) \<Longrightarrow> list_all P (take k s)"
proof -
  assume "k \<le> length (takeWhile P s)"
  then have "take k s = take k (takeWhile P s)"
    by (metis takeWhile_dropWhile_id take_append diff_is_0_eq' take_0 append_Nil2)
  then show ?thesis
    by (auto simp: list_all_iff dest: in_set_takeD set_takeWhileD)
qed

lemma match_here_AnyStar_greatest:
  assumes "match_here (AnyStar # rs) u = Some caps"
  shows "\<exists>m t. u = m @ t \<and> list_all (\<lambda>c. \<not> is_line_terminator c) m
           \<and> match_here rs t = Some caps
           \<and> (\<forall>m' t'. u = m' @ t' \<and> list_all (\<lambda>c. \<not> is_line_terminator c) m'
                  \<and> length m < length m' \<longrightarrow> match_here rs t' = None)"
proof -
  let ?P = "\<lambda>c. \<not> is_line_terminator c"
  let ?n = "length (takeWhile ?P u)"
  have eq: "match_here (AnyStar # rs) u =
      first_success (\<lambda>k. match_here rs (drop k u)) (rev [0 ..< Suc ?n])"
    by (simp only: match_here.simps rx_item.case)
  from assms [unfolded eq, THEN first_success_greatest] obtain k
    where k: "k < Suc ?n" "match_here rs (drop k u) = Some caps"
      and great: "\<forall>j. k < j \<and> j < Suc ?n \<longrightarrow> match_here rs (drop j u) = None"
    by blast
  from k(1) have kn: "k \<le> ?n" by simp
  then have kl: "k \<le> length u"
    using length_takeWhile_le [of ?P u] by simp
  have "match_here rs t' = None"
    if "u = m' @ t'" "list_all ?P m'" "k < length m'" for m' t'
  proof -
    have "length m' \<le> ?n"
      unfolding that(1) using that(2) by (rule length_takeWhile_append_ge)
    with that(3) great have "match_here rs (drop (length m') u) = None" by simp
    then show ?thesis unfolding that(1) by simp
  qed
  moreover have "u = take k u @ drop k u" by simp
  moreover have "list_all ?P (take k u)" using kn by (rule take_takeWhile_all)
  moreover have "length (take k u) = k" using kl by simp
  ultimately show ?thesis using k(2) by metis
qed

lemma takeWhile_digits_append:
  "list_all is_digit ds \<Longrightarrow> (case rest of [] \<Rightarrow> True | c # _ \<Rightarrow> \<not> is_digit c)
     \<Longrightarrow> takeWhile is_digit (ds @ rest) = ds"
  by (induction ds) (auto split: list.splits)

lemma match_tail_complete:
  assumes "ds \<noteq> []" "list_all is_digit ds"
  shows "match_here [Lit l3, DigitsPlus] (l3 @ ds @ rest) \<noteq> None"
proof
  assume "match_here [Lit l3, DigitsPlus] (l3 @ ds @ rest) = None"
  then have "match_here [DigitsPlus] (ds @ rest) = None"
    unfolding match_here_Lit_append .
  then have "takeWhile is_digit (ds @ rest) = []"
    unfolding match_here_DigitsPlus by (simp split: if_splits)
  with assms show False
    by (cases ds) auto
qed

lemma match_middle_complete:
  assumes "one_line m2" "ds \<noteq> []" "list_all is_digit ds"
  shows "match_here [Lit l2, AnyStar, Lit l3, DigitsPlus] (l2 @ m2 @ l3 @ ds @ rest) \<noteq> None"
proof
  assume "match_here [Lit l2, AnyStar, Lit l3, DigitsPlus] (l2 @ m2 @ l3 @ ds @ rest) = None"
  then have "match_here [AnyStar, Lit l3, DigitsPlus] (m2 @ l3 @ ds @ rest) = None"
    unfolding match_here_Lit_append .
  then have "match_here [Lit l3, DigitsPlus] (l3 @ ds @ rest) = None"
    using assms(1) by (rule match_here_AnyStar_None)
  with match_tail_complete [OF assms(2,3)] show False by blast
qed

lemma match_three_complete:
  assumes "one_line m1" "one_line m2" "ds \<noteq> []" "list_all is_digit ds"
  shows "match_here [Lit l1, AnyStar, Lit l2, AnyStar, Lit l3, DigitsPlus]
           (l1 @ m1 @ l2 @ m2 @ l3 @ ds @ rest) \<noteq> None"
proof
  assume "match_here [Lit l1, AnyStar, Lit l2, AnyStar, Lit l3, DigitsPlus]
            (l1 @ m1 @ l2 @ m2 @ l3 @ ds @ rest) = None"
  then have "match_here [AnyStar, Lit l2, AnyStar, Lit l3, DigitsPlus]
               (m1 @ l2 @ m2 @ l3 @ ds @ rest) = None"
    unfolding match_here_Lit_append .
  then have "match_here [Lit l2, AnyStar, Lit l3, DigitsPlus] (l2 @ m2 @ l3 @ ds @ rest) = None"
    using assms(1) by (rule match_here_AnyStar_None)
  with match_middle_complete [OF assms(2,3,4)] show False by blast
qed

lemma match_three_greatest:
  assumes "match_here [Lit l1, AnyStar, Lit l2, AnyStar, Lit l3, DigitsPlus] u = Some caps"
  shows "\<exists>m1 m2 ds rest.
           u = l1 @ m1 @ l2 @ m2 @ l3 @ ds @ rest
           \<and> one_line m1 \<and> one_line m2
           \<and> ds \<noteq> [] \<and> list_all is_digit ds
           \<and> (case rest of [] \<Rightarrow> True | c # _ \<Rightarrow> \<not> is_digit c)
           \<and> caps = [ds]
           \<and> (\<forall>m1' m2' ds' rest'.
                 u = l1 @ m1' @ l2 @ m2' @ l3 @ ds' @ rest'
                 \<and> one_line m1' \<and> one_line m2' \<and> ds' \<noteq> [] \<and> list_all is_digit ds'
                 \<longrightarrow> length m1' + length m2' \<le> length m1 + length m2)"
proof -
  from assms obtain v where v: "u = l1 @ v"
    and r1: "match_here [AnyStar, Lit l2, AnyStar, Lit l3, DigitsPlus] v = Some caps"
    unfolding match_here_Lit by blast
  from match_here_AnyStar_greatest [OF r1] obtain m1 t2 where t2: "v = m1 @ t2"
    and m1: "one_line m1"
    and r2: "match_here [Lit l2, AnyStar, Lit l3, DigitsPlus] t2 = Some caps"
    and max1: "\<And>m' t'. v = m' @ t' \<Longrightarrow> one_line m' \<Longrightarrow> length m1 < length m'
                \<Longrightarrow> match_here [Lit l2, AnyStar, Lit l3, DigitsPlus] t' = None"
    by blast
  from r2 obtain w where w: "t2 = l2 @ w"
    and r3: "match_here [AnyStar, Lit l3, DigitsPlus] w = Some caps"
    unfolding match_here_Lit by blast
  from match_here_AnyStar_greatest [OF r3] obtain m2 t4 where t4: "w = m2 @ t4"
    and m2: "one_line m2"
    and r4: "match_here [Lit l3, DigitsPlus] t4 = Some caps"
    and max2: "\<And>m' t'. w = m' @ t' \<Longrightarrow> one_line m' \<Longrightarrow> length m2 < length m'
                \<Longrightarrow> match_here [Lit l3, DigitsPlus] t' = None"
    by blast
  from r4 obtain t5 where t5: "t4 = l3 @ t5"
    and r5: "match_here [DigitsPlus] t5 = Some caps"
    unfolding match_here_Lit by blast
  let ?ds = "takeWhile is_digit t5"
  from r5 have ds: "?ds \<noteq> []" and caps: "caps = [?ds]"
    unfolding match_here_DigitsPlus by (auto split: if_splits)
  have digits: "list_all is_digit ?ds"
    by (auto simp: list_all_iff dest: set_takeWhileD)
  from takeWhile_split [of t5 is_digit] obtain rest where rest: "t5 = ?ds @ rest"
    and stop: "(case rest of [] \<Rightarrow> True | c # _ \<Rightarrow> \<not> is_digit c)"
    by blast
  have u: "u = l1 @ m1 @ l2 @ m2 @ l3 @ ?ds @ rest"
    unfolding v t2 w t4 t5 using rest by simp
  have "length m1' + length m2' \<le> length m1 + length m2"
    if other: "u = l1 @ m1' @ l2 @ m2' @ l3 @ ds' @ rest'"
      and o1: "one_line m1'" and o2: "one_line m2'"
      and od: "ds' \<noteq> []" "list_all is_digit ds'"
    for m1' m2' ds' rest'
  proof (rule ccontr)
    assume "\<not> length m1' + length m2' \<le> length m1 + length m2"
    then have gt: "length m1 + length m2 < length m1' + length m2'" by simp
    from other v have v': "v = m1' @ (l2 @ m2' @ l3 @ ds' @ rest')" by simp
    have le1: "length m1' \<le> length m1"
    proof (rule ccontr)
      assume "\<not> length m1' \<le> length m1"
      then have "length m1 < length m1'" by simp
      from max1 [OF v' o1 this] match_middle_complete [OF o2 od]
      show False by blast
    qed
    let ?d = "length m1 - length m1'"
    from gt le1 have d: "?d < length m2'" by arith
    from v' t2 w have "m1 @ l2 @ w = m1' @ l2 @ m2' @ l3 @ ds' @ rest'" by simp
    then have "drop (length m1 + length l2) (m1 @ l2 @ w)
        = drop (length m1 + length l2) (m1' @ l2 @ m2' @ l3 @ ds' @ rest')"
      by simp
    then have "w = drop ?d (m2' @ l3 @ ds' @ rest')"
      using le1 by simp
    with d have w': "w = drop ?d m2' @ (l3 @ ds' @ rest')" by simp
    have "one_line (drop ?d m2')"
      using o2 by (auto simp: list_all_iff dest: in_set_dropD)
    moreover have "length m2 < length (drop ?d m2')"
      using gt le1 by simp
    ultimately have "match_here [Lit l3, DigitsPlus] (l3 @ ds' @ rest') = None"
      using max2 [OF w'] by blast
    with match_tail_complete [OF od] show False by blast
  qed
  with u m1 m2 ds digits stop caps show ?thesis by blast
qed

lemma js_match_least:
  assumes "js_match re s = Some caps"
  shows "\<exists>pre u. s = pre @ u \<and> match_here re u = Some caps
           \<and> (\<forall>pre' u'. s = pre' @ u' \<and> length pre' < length pre
                  \<longrightarrow> match_here re u' = None)"
proof -
  from assms [unfolded js_match_def, THEN first_success_least] obtain i
    where i: "i < Suc (length s)" "match_here re (drop i s) = Some caps"
      and least: "\<forall>j<i. match_here re (drop j s) = None"
    by blast
  have "match_here re u' = None" if "s = pre' @ u'" "length pre' < i" for pre' u'
  proof -
    from least that(2) have "match_here re (drop (length pre') s) = None" by blast
    then show ?thesis unfolding that(1) by simp
  qed
  moreover have "s = take i s @ drop i s" by simp
  moreover have "length (take i s) = i" using i(1) by simp
  ultimately show ?thesis using i(2) by metis
qed

lemma js_match_None:
  assumes "js_match re (pre @ u) = None"
  shows "match_here re u = None"
proof -
  have "length pre \<in> set [0 ..< Suc (length (pre @ u))]" by auto
  with assms have "match_here re (drop (length pre) (pre @ u)) = None"
    unfolding js_match_def first_success_None by blast
  then show ?thesis by simp
qed

lemma phrase_parts_match:
  assumes "phrase_parts s pre m1 m2 ds rest" "s = pre' @ u" "length pre' = length pre"
  shows "match_here temperature_re u \<noteq> None"
proof -
  from assms have "u = ''set'' @ m1 @ ''temperature'' @ m2 @ ''to '' @ ds @ rest"
    unfolding phrase_parts_def by simp
  moreover from assms(1) have "one_line m1" "one_line m2" "ds \<noteq> []" "list_all is_digit ds"
    unfolding phrase_parts_def by blast+
  ultimately show ?thesis
    unfolding temperature_re_def using match_three_complete by blast
qed

lemma js_match_temperature_complete:
  assumes "temperature_phrase s ds"
  shows "js_match temperature_re s \<noteq> None"
proof
  assume none: "js_match temperature_re s = None"
  from assms obtain pre m1 m2 rest where p: "phrase_parts s pre m1 m2 ds rest"
    unfolding temperature_phrase_def by blast
  then have s: "s = pre @ (''set'' @ m1 @ ''temperature'' @ m2 @ ''to '' @ ds @ rest)"
    unfolding phrase_parts_def by blast
  from none have "match_here temperature_re
      (''set'' @ m1 @ ''temperature'' @ m2 @ ''to '' @ ds @ rest) = None"
    unfolding s by (rule js_match_None)
  with phrase_parts_match [OF p s] show False by blast
qed

lemma js_match_temperature_extracted:
  assumes "js_match temperature_re s = Some caps"
  shows "\<exists>ds. caps = [ds] \<and> extracted_digits s ds"
proof -
  from js_match_least [OF assms] obtain pre u where s: "s = pre @ u"
    and u: "match_here temperature_re u = Some caps"
    and least: "\<And>pre' u'. s = pre' @ u' \<Longrightarrow> length pre' < length pre
                  \<Longrightarrow> match_here temperature_re u' = None"
    by blast
  from match_three_greatest [OF u [unfolded temperature_re_def]] obtain m1 m2 ds rest
    where parts: "u = ''set'' @ m1 @ ''temperature'' @ m2 @ ''to '' @ ds @ rest"
      "one_line m1" "one_line m2" "ds \<noteq> []" "list_all is_digit ds"
      "(case rest of [] \<Rightarrow> True | c # _ \<Rightarrow> \<not> is_digit c)"
    and caps: "caps = [ds]"
    and great: "\<And>m1' m2' ds' rest'.
        u = ''set'' @ m1' @ ''temperature'' @ m2' @ ''to '' @ ds' @ rest'
        \<Longrightarrow> one_line m1' \<Longrightarrow> one_line m2' \<Longrightarrow> ds' \<noteq> [] \<Longrightarrow> list_all is_digit ds'
        \<Longrightarrow> length m1' + length m2' \<le> length m1 + length m2"
    by blast
  have p: "phrase_parts s pre m1 m2 ds rest"
    unfolding phrase_parts_def s using parts by simp
  have left: "length pre \<le> length pre'"
    if q: "phrase_parts s pre' m1' m2' ds' rest'" for pre' m1' m2' ds' rest'
  proof (rule ccontr)
    assume "\<not> length pre \<le> length pre'"
    then have lt: "length pre' < length pre" by simp
    from q have s': "s = pre' @ (''set'' @ m1' @ ''temperature'' @ m2' @ ''to '' @ ds' @ rest')"
      unfolding phrase_parts_def by blast
    from least [OF s' lt] phrase_parts_match [OF q s'] show False by blast
  qed
  have right: "length m1' + length m2' \<le> length m1 + length m2"
    if q: "phrase_parts s pre m1' m2' ds' rest'" for m1' m2' ds' rest'
  proof -
    from q s have "u = ''set'' @ m1' @ ''temperature'' @ m2' @ ''to '' @ ds' @ rest'"
      unfolding phrase_parts_def by simp
    moreover from q have "one_line m1'" "one_line m2'" "ds' \<noteq> []" "list_all is_digit ds'"
      unfolding phrase_parts_def by blast+
    ultimately show ?thesis by (rule great)
  qed
  from p left right have "extracted_digits s ds"
    unfolding extracted_digits_def by blast
  with caps show ?thesis by blast
qed

lemma extracted_digits_phrase: "extracted_digits s ds \<Longrightarrow> temperature_phrase s ds"
  unfolding extracted_digits_def temperature_phrase_def by blast

lemma extracted_digits_unique:
  assumes "extracted_digits s ds" "extracted_digits s ds'"
  shows "ds = ds'"
proof -
  from assms(1) obtain pre m1 m2 rest where p: "phrase_parts s pre m1 m2 ds rest"
    and left: "\<And>pre' m1' m2' ds' rest'.
        phrase_parts s pre' m1' m2' ds' rest' \<Longrightarrow> length pre \<le> length pre'"
    and right: "\<And>m1' m2' ds' rest'.
        phrase_parts s pre m1' m2' ds' rest' \<Longrightarrow> length m1' + length m2' \<le> length m1 + length m2"
    unfolding extracted_digits_def by blast
  from assms(2) obtain pre' m1' m2' rest' where p': "phrase_parts s pre' m1' m2' ds' rest'"
    and left': "\<And>pre m1 m2 ds rest.
        phrase_parts s pre m1 m2 ds rest \<Longrightarrow> length pre' \<le> length pre"
    and right': "\<And>m1 m2 ds rest.
        phrase_parts s pre' m1 m2 ds rest \<Longrightarrow> length m1 + length m2 \<le> length m1' + length m2'"
    unfolding extracted_digits_def by blast
  from left [OF p'] left' [OF p] have len: "length pre = length pre'" by simp
  from p p' have eq: "pre @ ''set'' @ m1 @ ''temperature'' @ m2 @ ''to '' @ ds @ rest
      = pre' @ ''set'' @ m1' @ ''temperature'' @ m2' @ ''to '' @ ds' @ rest'"
    unfolding phrase_parts_def by simp
  with len have pre: "pre = pre'" by simp
  from right [OF p' [folded pre]] right' [OF p [unfolded pre]]
  have len2: "length m1 + length m2 = length m1' + length m2'" by simp
  let ?A = "pre @ ''set'' @ m1 @ ''temperature'' @ m2 @ ''to ''"
  let ?A' = "pre' @ ''set'' @ m1' @ ''temperature'' @ m2' @ ''to ''"
  have "length ?A = length ?A'" using len len2 by simp
  moreover from eq have "?A @ (ds @ rest) = ?A' @ (ds' @ rest')" by simp
  ultimately have "ds @ rest = ds' @ rest'"
    by (metis append_eq_append_conv)
  then have "takeWhile is_digit (ds @ rest) = takeWhile is_digit (ds' @ rest')" by simp
  moreover from p have "takeWhile is_digit (ds @ rest) = ds"
    unfolding phrase_parts_def by (auto intro: takeWhile_digits_append)
  moreover from p' have "takeWhile is_digit (ds' @ rest') = ds'"
    unfolding phrase_parts_def by (auto intro: takeWhile_digits_append)
  ultimately show ?thesis by simp
qed

lemma extracted_digits_js_match:
  assumes "extracted_digits s ds"
  shows "js_match temperature_re s = Some [ds]"
proof -
  from js_match_temperature_complete [OF extracted_digits_phrase [OF assms]]
  obtain caps where caps: "js_match temperature_re s = Some caps" by blast
  from js_match_temperature_extracted [OF caps] obtain ds' where "caps = [ds']"
    and "extracted_digits s ds'"
    by blast
  with assms caps show ?thesis
    using extracted_digits_unique by blast
qed

lemma temperature_phrase_extracted:
  assumes "temperature_phrase s ds"
  shows "\<exists>ds'. extracted_digits s ds'"
proof -
  from js_match_temperature_complete [OF assms]
  obtain caps where "js_match temperature_re s = Some caps" by blast
  from js_match_temperature_extracted [OF this] show ?thesis by blast
qed

section \<open>Lookup in the inventory\<close>

text \<open>
  Claim C7. In an inventory whose names are unique up to letter case, for every entry
  and every input string equal to the entry's name up to letter case,
  \<open>findAccessoryByName\<close> returns that entry; for every input string that is equal up
  to case to no name of the inventory (a proper substring of a name, for one) it returns
  the not-found outcome.
\<close>

theorem findAccessoryByName_exact:
  assumes "names_unique accs"
  shows "(entry \<in> set accs \<and> equal_up_to_case n (acc_displayName entry)
            \<longrightarrow> findAccessoryByName accs (JStr n) = Inr (Some entry))
       \<and> ((\<forall>x\<in>set accs. \<not> equal_up_to_case n (acc_displayName x))
            \<longrightarrow> findAccessoryByName accs (JStr n) = Inr None)"
proof (intro conjI impI)
  assume e: "entry \<in> set accs \<and> equal_up_to_case n (acc_displayName entry)"
  then have "\<exists>x. x \<in> set accs \<and> equal_up_to_case (acc_displayName x) n"
    using equal_up_to_case_sym by blast
  then obtain y where y: "find (\<lambda>x. equal_up_to_case (acc_displayName x) n) accs = Some y"
    using find_None_iff [of "\<lambda>x. equal_up_to_case (acc_displayName x) n" accs] by fastforce
  then have "y \<in> set accs" "equal_up_to_case (acc_displayName y) n"
    by (auto simp: find_Some_iff)
  with e have "equal_up_to_case (acc_displayName y) (acc_displayName entry)"
    using equal_up_to_case_trans by blast
  with assms \<open>y \<in> set accs\<close> e have "y = entry"
    unfolding names_unique_def by blast
  with y show "findAccessoryByName accs (JStr n) = Inr (Some entry)"
    by (simp add: findAccessoryByName_string)
next
  assume "\<forall>x\<in>set accs. \<not> equal_up_to_case n (acc_displayName x)"
  then have "\<not> (\<exists>x. x \<in> set accs \<and> equal_up_to_case (acc_displayName x) n)"
    using equal_up_to_case_sym by blast
  then show "findAccessoryByName accs (JStr n) = Inr None"
    by (simp add: findAccessoryByName_string find_None_iff)
qed

theorem findAccessoryByName_exact_witness:
  "names_unique [living_room_light, garage_door]
   \<and> findAccessoryByName [living_room_light, garage_door] (JStr ''living room light'')
     = Inr (Some living_room_light)
   \<and> findAccessoryByName [living_room_light, garage_door] (JStr ''LIVING ROOM LIGHT'')
     = Inr (Some living_room_light)
   \<and> findAccessoryByName [living_room_light, garage_door] (JStr ''Living Room'') = Inr None"
proof -
  let ?accs = "[living_room_light, garage_door]"
  have u: "names_unique ?accs"
    by code_simp
  have m: "living_room_light \<in> set ?accs" by simp
  have e1: "equal_up_to_case ''living room light'' (acc_displayName living_room_light)"
    by code_simp
  have e2: "equal_up_to_case ''LIVING ROOM LIGHT'' (acc_displayName living_room_light)"
    by code_simp
  have n: "\<forall>x\<in>set ?accs. \<not> equal_up_to_case ''Living Room'' (acc_displayName x)"
    by code_simp
  from findAccessoryByName_exact [OF u, of living_room_light "''living room light''"] m e1
  have r1: "findAccessoryByName ?accs (JStr ''living room light'') = Inr (Some living_room_light)"
    by blast
  from findAccessoryByName_exact [OF u, of living_room_light "''LIVING ROOM LIGHT''"] m e2
  have r2: "findAccessoryByName ?accs (JStr ''LIVING ROOM LIGHT'') = Inr (Some living_room_light)"
    by blast
  from findAccessoryByName_exact [OF u, of _ "''Living Room''"] n
  have r3: "findAccessoryByName ?accs (JStr ''Living Room'') = Inr None"
    by blast
  from u r1 r2 r3 show ?thesis by blast
qed

section \<open>The dispatcher on a well-formed Intent\<close>

lemma UUIDs_distinct: "On_UUID \<noteq> TargetTemperature_UUID"
  by (simp add: On_UUID_def TargetTemperature_UUID_def)

lemma determineValueForAction_On:
  assumes "char_UUID c = On_UUID"
  shows "determineValueForAction (JStr a) c =
           Inr (if on_phrase (toLowerCase a) then JBool True
                else if off_phrase (toLowerCase a) then JBool False
                else JNull)"
  using assms UUIDs_distinct
  by (simp add: determineValueForAction_def temperature_rule_def on_phrase_def off_phrase_def
      str_includes_sublist)

lemma destructure_intent: "destructure (intent a d) = Inr (JStr a, JStr d)"
  by (simp add: intent_def own_prop_def)

lemma executeAction_intent:
  "executeAction accs (intent a d) =
     (case find (\<lambda>x. equal_up_to_case (acc_displayName x) d) accs of
        None \<Rightarrow> ([AccessoryNotFound (JStr d)], Inr ())
      | Some acc \<Rightarrow>
         (case find (\<lambda>s. equal_up_to_case (svc_displayName s) d) (acc_services acc) of
            None \<Rightarrow> ([Executing (JStr a) (JStr d), ServiceNotFound (JStr d)], Inr ())
          | Some s \<Rightarrow>
             (case getCharacteristicForService s of
                None \<Rightarrow>
                  ([Executing (JStr a) (JStr d), CharacteristicNotFound (svc_displayName s)],
                   Inr ())
              | Some c \<Rightarrow>
                 (case determineValueForAction (JStr a) c of
                    Inl e \<Rightarrow> ([Executing (JStr a) (JStr d)], Inl e)
                  | Inr v \<Rightarrow>
                      if v \<noteq> JNull
                      then ([Executing (JStr a) (JStr d), SetValue acc s c v, NowSet (JStr d) c],
                            Inr ())
                      else ([Executing (JStr a) (JStr d), CouldNotDetermineValue (JStr a)],
                            Inr ())))))"
  by (simp add: executeAction_def destructure_intent findAccessoryByName_string
      findService_string split: option.splits)

lemma executeAction_SetValue:
  assumes "SetValue acc s c v \<in> set (fst (executeAction accs (intent a d)))"
  shows "findAccessoryByName accs (JStr d) = Inr (Some acc)
         \<and> findService acc (JStr d) = Inr (Some s)
         \<and> getCharacteristicForService s = Some c
         \<and> determineValueForAction (JStr a) c = Inr v \<and> v \<noteq> JNull"
  using assms
  by (auto simp: executeAction_intent findAccessoryByName_string findService_string
      split: option.splits sum.splits if_splits)

text \<open>
  Claim C10. When entries of the inventory share a name up to letter case, the lookup
  returns the first of them in inventory order: the entry at the least index whose name
  matches. Every write a dispatch of an Intent for that name makes goes to this entry.
\<close>

theorem findAccessoryByName_first_match:
  assumes "i < length accs"
    and "equal_up_to_case (acc_displayName (accs ! i)) n"
    and "\<forall>j<i. \<not> equal_up_to_case (acc_displayName (accs ! j)) n"
  shows "findAccessoryByName accs (JStr n) = Inr (Some (accs ! i))
       \<and> (\<forall>acc s c v. SetValue acc s c v \<in> set (fst (executeAction accs (intent a n)))
            \<longrightarrow> acc = accs ! i)"
proof -
  have "find (\<lambda>x. equal_up_to_case (acc_displayName x) n) accs = Some (accs ! i)"
    unfolding find_Some_iff using assms by blast
  then have f: "findAccessoryByName accs (JStr n) = Inr (Some (accs ! i))"
    by (simp add: findAccessoryByName_string)
  moreover have "acc = accs ! i"
    if "SetValue acc s c v \<in> set (fst (executeAction accs (intent a n)))" for acc s c v
    using executeAction_SetValue [OF that] f by simp
  ultimately show ?thesis by blast
qed

theorem findAccessoryByName_first_match_witness:
  "equal_up_to_case (acc_displayName hall_lamp) ''hall lamp''
   \<and> equal_up_to_case (acc_displayName hall_lamp_twin) ''hall lamp''
   \<and> findAccessoryByName [living_room, hall_lamp, hall_lamp_twin] (JStr ''hall lamp'')
     = Inr (Some hall_lamp)
   \<and> findAccessoryByName [living_room, hall_lamp_twin, hall_lamp] (JStr ''hall lamp'')
     = Inr (Some hall_lamp_twin)
   \<and> executeAction [living_room, hall_lamp, hall_lamp_twin] (intent ''turn on'' ''hall lamp'')
     = ([Executing (JStr ''turn on'') (JStr ''hall lamp''),
         SetValue hall_lamp \<lparr>svc_displayName = ''Hall Lamp'', svc_kind = Lightbulb\<rparr>
           \<lparr>char_UUID = On_UUID\<rparr> (JBool True),
         NowSet (JStr ''hall lamp'') \<lparr>char_UUID = On_UUID\<rparr>], Inr ())"
proof -
  have e: "equal_up_to_case (acc_displayName hall_lamp) ''hall lamp''
      \<and> equal_up_to_case (acc_displayName hall_lamp_twin) ''hall lamp''"
    by code_simp
  have n0: "\<not> equal_up_to_case (acc_displayName living_room) ''hall lamp''"
    by code_simp
  have b1: "\<forall>j<1. \<not> equal_up_to_case
      (acc_displayName ([living_room, hall_lamp, hall_lamp_twin] ! j)) ''hall lamp''"
    using n0 by simp
  have b2: "\<forall>j<1. \<not> equal_up_to_case
      (acc_displayName ([living_room, hall_lamp_twin, hall_lamp] ! j)) ''hall lamp''"
    using n0 by simp
  from findAccessoryByName_first_match
    [of 1 "[living_room, hall_lamp, hall_lamp_twin]" "''hall lamp''", OF _ _ b1] e
  have r1: "findAccessoryByName [living_room, hall_lamp, hall_lamp_twin] (JStr ''hall lamp'')
     = Inr (Some hall_lamp)"
    by simp
  from findAccessoryByName_first_match
    [of 1 "[living_room, hall_lamp_twin, hall_lamp]" "''hall lamp''", OF _ _ b2] e
  have r2: "findAccessoryByName [living_room, hall_lamp_twin, hall_lamp] (JStr ''hall lamp'')
     = Inr (Some hall_lamp_twin)"
    by simp
  have d: "executeAction [living_room, hall_lamp, hall_lamp_twin]
      (intent ''turn on'' ''hall lamp'')
     = ([Executing (JStr ''turn on'') (JStr ''hall lamp''),
         SetValue hall_lamp \<lparr>svc_displayName = ''Hall Lamp'', svc_kind = Lightbulb\<rparr>
           \<lparr>char_UUID = On_UUID\<rparr> (JBool True),
         NowSet (JStr ''hall lamp'') \<lparr>char_UUID = On_UUID\<rparr>], Inr ())"
    by code_simp
  from e r1 r2 d show ?thesis by blast
qed

section \<open>Selection of the service and of the characteristic\<close>

lemma determineValueForAction_string:
  "\<exists>v. determineValueForAction (JStr a) c = Inr v"
  by (simp add: determineValueForAction_def)

lemma executeAction_selected:
  assumes "findAccessoryByName accs (JStr d) = Inr (Some acc)"
    and "findService acc (JStr d) = Inr (Some s)"
  shows "executeAction accs (intent a d) =
     (case getCharacteristicForService s of
        None \<Rightarrow>
          ([Executing (JStr a) (JStr d), CharacteristicNotFound (svc_displayName s)], Inr ())
      | Some c \<Rightarrow>
         (case determineValueForAction (JStr a) c of
            Inl e \<Rightarrow> ([Executing (JStr a) (JStr d)], Inl e)
          | Inr v \<Rightarrow>
              if v \<noteq> JNull
              then ([Executing (JStr a) (JStr d), SetValue acc s c v, NowSet (JStr d) c],
                    Inr ())
              else ([Executing (JStr a) (JStr d), CouldNotDetermineValue (JStr a)],
                    Inr ())))"
  using assms
  by (simp add: executeAction_intent findAccessoryByName_string findService_string)

lemma executeAction_ServiceNotFound:
  assumes "findAccessoryByName accs (JStr d) = Inr (Some acc)"
    and "ServiceNotFound x \<in> set (fst (executeAction accs (intent a d)))"
  shows "findService acc (JStr d) = Inr None"
  using assms
  by (auto simp: executeAction_intent findAccessoryByName_string findService_string
      split: option.splits sum.splits if_splits)

lemma executeAction_CharacteristicNotFound:
  assumes "findAccessoryByName accs (JStr d) = Inr (Some acc)"
    and "findService acc (JStr d) = Inr (Some s)"
    and "CharacteristicNotFound x \<in> set (fst (executeAction accs (intent a d)))"
  shows "getCharacteristicForService s = None"
  using assms(3) unfolding executeAction_selected [OF assms(1,2)]
  by (auto split: option.splits sum.splits if_splits)

text \<open>
  Claim C5. Once the device entry is found, the service selected is the first service of
  that entry whose display name equals the device name of the Intent up to letter case,
  and the dispatch goes on with that service: it takes the characteristic of that service,
  and a write goes to that service of that entry. When no service name equals the device
  name, and only then, the dispatch ends with the service-not-found message after the
  announcement of the action, without taking a characteristic and without a write.
\<close>

theorem service_selection:
  assumes "findAccessoryByName accs (JStr d) = Inr (Some acc)"
  shows "(findService acc (JStr d) = Inr (Some s)
           \<longleftrightarrow> (\<exists>i<length (acc_services acc).
                  acc_services acc ! i = s
                  \<and> equal_up_to_case (svc_displayName s) d
                  \<and> (\<forall>j<i. \<not> equal_up_to_case (svc_displayName (acc_services acc ! j)) d)))
       \<and> (SetValue acc' s' c v \<in> set (fst (executeAction accs (intent a d)))
            \<longrightarrow> acc' = acc \<and> findService acc (JStr d) = Inr (Some s'))
       \<and> ((\<forall>x\<in>set (acc_services acc). \<not> equal_up_to_case (svc_displayName x) d)
            \<longrightarrow> executeAction accs (intent a d)
                  = ([Executing (JStr a) (JStr d), ServiceNotFound (JStr d)], Inr ()))
       \<and> (findService acc (JStr d) = Inr (Some s)
            \<longrightarrow> executeAction accs (intent a d)
                  = (case getCharacteristicForService s of
                       None \<Rightarrow>
                         ([Executing (JStr a) (JStr d),
                           CharacteristicNotFound (svc_displayName s)], Inr ())
                     | Some c \<Rightarrow>
                        (case determineValueForAction (JStr a) c of
                           Inl e \<Rightarrow> ([Executing (JStr a) (JStr d)], Inl e)
                         | Inr v \<Rightarrow>
                             if v \<noteq> JNull
                             then ([Executing (JStr a) (JStr d), SetValue acc s c v,
                                    NowSet (JStr d) c], Inr ())
                             else ([Executing (JStr a) (JStr d),
                                    CouldNotDetermineValue (JStr a)], Inr ()))))
       \<and> (ServiceNotFound (JStr d) \<in> set (fst (executeAction accs (intent a d)))
            \<longrightarrow> (\<forall>x\<in>set (acc_services acc). \<not> equal_up_to_case (svc_displayName x) d))"
proof -
  have 1: "findService acc (JStr d) = Inr (Some s)
           \<longleftrightarrow> (\<exists>i<length (acc_services acc).
                  acc_services acc ! i = s
                  \<and> equal_up_to_case (svc_displayName s) d
                  \<and> (\<forall>j<i. \<not> equal_up_to_case (svc_displayName (acc_services acc ! j)) d))"
    unfolding findService_string by (auto simp: find_Some_iff)
  have 2: "SetValue acc' s' c v \<in> set (fst (executeAction accs (intent a d)))
            \<longrightarrow> acc' = acc \<and> findService acc (JStr d) = Inr (Some s')"
    using assms executeAction_SetValue [of acc' s' c v accs a d] by auto
  have 3: "(\<forall>x\<in>set (acc_services acc). \<not> equal_up_to_case (svc_displayName x) d)
            \<longrightarrow> executeAction accs (intent a d)
                  = ([Executing (JStr a) (JStr d), ServiceNotFound (JStr d)], Inr ())"
  proof
    assume "\<forall>x\<in>set (acc_services acc). \<not> equal_up_to_case (svc_displayName x) d"
    then have "find (\<lambda>s. equal_up_to_case (svc_displayName s) d) (acc_services acc) = None"
      by (simp add: find_None_iff)
    moreover from assms have "find (\<lambda>x. equal_up_to_case (acc_displayName x) d) accs = Some acc"
      by (simp add: findAccessoryByName_string)
    ultimately show "executeAction accs (intent a d)
        = ([Executing (JStr a) (JStr d), ServiceNotFound (JStr d)], Inr ())"
      by (simp add: executeAction_intent)
  qed
  have 4: "findService acc (JStr d) = Inr (Some s)
            \<longrightarrow> executeAction accs (intent a d)
                  = (case getCharacteristicForService s of
                       None \<Rightarrow>
                         ([Executing (JStr a) (JStr d),
                           CharacteristicNotFound (svc_displayName s)], Inr ())
                     | Some c \<Rightarrow>
                        (case determineValueForAction (JStr a) c of
                           Inl e \<Rightarrow> ([Executing (JStr a) (JStr d)], Inl e)
                         | Inr v \<Rightarrow>
                             if v \<noteq> JNull
                             then ([Executing (JStr a) (JStr d), SetValue acc s c v,
                                    NowSet (JStr d) c], Inr ())
                             else ([Executing (JStr a) (JStr d),
                                    CouldNotDetermineValue (JStr a)], Inr ())))"
    using executeAction_selected [OF assms] by blast
  have 5: "ServiceNotFound (JStr d) \<in> set (fst (executeAction accs (intent a d)))
            \<longrightarrow> (\<forall>x\<in>set (acc_services acc). \<not> equal_up_to_case (svc_displayName x) d)"
  proof
    assume "ServiceNotFound (JStr d) \<in> set (fst (executeAction accs (intent a d)))"
    from executeAction_ServiceNotFound [OF assms this]
    show "\<forall>x\<in>set (acc_services acc). \<not> equal_up_to_case (svc_displayName x) d"
      by (simp add: findService_string find_None_iff)
  qed
  from 1 2 3 4 5 show ?thesis by blast
qed

theorem service_selection_witness:
  "findAccessoryByName [living_room, ceiling_unit] (JStr ''ceiling'') = Inr (Some ceiling_unit)
   \<and> findService ceiling_unit (JStr ''ceiling'')
       = Inr (Some \<lparr>svc_displayName = ''CEILING'', svc_kind = Lightbulb\<rparr>)
   \<and> executeAction [living_room, ceiling_unit] (intent ''turn on'' ''ceiling'')
       = ([Executing (JStr ''turn on'') (JStr ''ceiling''),
           SetValue ceiling_unit \<lparr>svc_displayName = ''CEILING'', svc_kind = Lightbulb\<rparr>
             \<lparr>char_UUID = On_UUID\<rparr> (JBool True),
           NowSet (JStr ''ceiling'') \<lparr>char_UUID = On_UUID\<rparr>], Inr ())
   \<and> executeAction [living_room, ceiling_unit] (intent ''turn on'' ''Living Room'')
       = ([Executing (JStr ''turn on'') (JStr ''Living Room''),
           ServiceNotFound (JStr ''Living Room'')], Inr ())"
proof -
  let ?accs = "[living_room, ceiling_unit]"
  let ?s = "\<lparr>svc_displayName = ''CEILING'', svc_kind = Lightbulb\<rparr>"
  let ?c = "\<lparr>char_UUID = On_UUID\<rparr>"
  have f1: "findAccessoryByName ?accs (JStr ''ceiling'') = Inr (Some ceiling_unit)"
    by code_simp
  have i1: "1 < length (acc_services ceiling_unit) \<and> acc_services ceiling_unit ! 1 = ?s"
    by (simp add: ceiling_unit_def)
  have e1: "equal_up_to_case (svc_displayName ?s) ''ceiling''"
    by code_simp
  have n0: "\<not> equal_up_to_case (svc_displayName (acc_services ceiling_unit ! 0)) ''ceiling''"
    by code_simp
  have "\<forall>j<1. \<not> equal_up_to_case (svc_displayName (acc_services ceiling_unit ! j)) ''ceiling''"
    using n0 by simp
  with i1 e1 have "\<exists>i<length (acc_services ceiling_unit).
      acc_services ceiling_unit ! i = ?s
      \<and> equal_up_to_case (svc_displayName ?s) ''ceiling''
      \<and> (\<forall>j<i. \<not> equal_up_to_case (svc_displayName (acc_services ceiling_unit ! j)) ''ceiling'')"
    by blast
  with service_selection [OF f1, of ?s]
  have r1: "findService ceiling_unit (JStr ''ceiling'') = Inr (Some ?s)"
    by blast
  have g: "getCharacteristicForService ?s = Some ?c"
    by code_simp
  have v: "determineValueForAction (JStr ''turn on'') ?c = Inr (JBool True)"
    by code_simp
  from service_selection [OF f1, of ?s _ _ _ _ "''turn on''"] r1
  have "executeAction ?accs (intent ''turn on'' ''ceiling'')
      = (case getCharacteristicForService ?s of
           None \<Rightarrow>
             ([Executing (JStr ''turn on'') (JStr ''ceiling''),
               CharacteristicNotFound (svc_displayName ?s)], Inr ())
         | Some c \<Rightarrow>
            (case determineValueForAction (JStr ''turn on'') c of
               Inl e \<Rightarrow> ([Executing (JStr ''turn on'') (JStr ''ceiling'')], Inl e)
             | Inr v \<Rightarrow>
                 if v \<noteq> JNull
                 then ([Executing (JStr ''turn on'') (JStr ''ceiling''),
                        SetValue ceiling_unit ?s c v, NowSet (JStr ''ceiling'') c], Inr ())
                 else ([Executing (JStr ''turn on'') (JStr ''ceiling''),
                        CouldNotDetermineValue (JStr ''turn on'')], Inr ())))"
    by blast
  then have r2: "executeAction ?accs (intent ''turn on'' ''ceiling'')
       = ([Executing (JStr ''turn on'') (JStr ''ceiling''),
           SetValue ceiling_unit ?s ?c (JBool True),
           NowSet (JStr ''ceiling'') ?c], Inr ())"
    by (simp only: g v option.case sum.case jsval.distinct if_True simp_thms)
  have f2: "findAccessoryByName ?accs (JStr ''Living Room'') = Inr (Some living_room)"
    by code_simp
  have none: "\<forall>x\<in>set (acc_services living_room).
      \<not> equal_up_to_case (svc_displayName x) ''Living Room''"
    by code_simp
  with service_selection [OF f2, of _ _ _ _ _ "''turn on''"]
  have r3: "executeAction ?accs (intent ''turn on'' ''Living Room'')
       = ([Executing (JStr ''turn on'') (JStr ''Living Room''),
           ServiceNotFound (JStr ''Living Room'')], Inr ())"
    by blast
  from f1 r1 r2 r3 show ?thesis by blast
qed

text \<open>
  Claim C6. The characteristic the dispatch works on is a function of the kind of the
  selected service: for Lightbulb, Switch, Fan and Outlet it is the characteristic of
  type On, for Thermostat the one of type TargetTemperature, and the dispatch derives the
  value for that characteristic and writes it there; for a service of any other kind, and
  only for such a service, there is no characteristic and the dispatch ends with the
  characteristic-not-found message.
\<close>

theorem characteristic_table:
  "(svc_kind s \<in> {Lightbulb, Switch, Fan, Outlet}
      \<longrightarrow> getCharacteristicForService s = Some \<lparr>char_UUID = On_UUID\<rparr>)
   \<and> (svc_kind s = Thermostat
      \<longrightarrow> getCharacteristicForService s = Some \<lparr>char_UUID = TargetTemperature_UUID\<rparr>)
   \<and> (svc_kind s \<notin> {Lightbulb, Switch, Fan, Outlet, Thermostat}
      \<longrightarrow> getCharacteristicForService s = None
        \<and> (findAccessoryByName accs (JStr d) = Inr (Some acc)
             \<and> findService acc (JStr d) = Inr (Some s)
           \<longrightarrow> executeAction accs (intent a d)
                 = ([Executing (JStr a) (JStr d), CharacteristicNotFound (svc_displayName s)],
                    Inr ())))
   \<and> (findAccessoryByName accs (JStr d) = Inr (Some acc)
        \<and> findService acc (JStr d) = Inr (Some s)
        \<and> svc_kind s \<in> {Lightbulb, Switch, Fan, Outlet}
      \<longrightarrow> (\<exists>v. determineValueForAction (JStr a) \<lparr>char_UUID = On_UUID\<rparr> = Inr v
             \<and> executeAction accs (intent a d)
                 = (if v \<noteq> JNull
                    then ([Executing (JStr a) (JStr d),
                           SetValue acc s \<lparr>char_UUID = On_UUID\<rparr> v,
                           NowSet (JStr d) \<lparr>char_UUID = On_UUID\<rparr>], Inr ())
                    else ([Executing (JStr a) (JStr d), CouldNotDetermineValue (JStr a)],
                          Inr ()))))
   \<and> (findAccessoryByName accs (JStr d) = Inr (Some acc)
        \<and> findService acc (JStr d) = Inr (Some s)
        \<and> svc_kind s = Thermostat
      \<longrightarrow> (\<exists>v. determineValueForAction (JStr a) \<lparr>char_UUID = TargetTemperature_UUID\<rparr>
               = Inr v
             \<and> executeAction accs (intent a d)
                 = (if v \<noteq> JNull
                    then ([Executing (JStr a) (JStr d),
                           SetValue acc s \<lparr>char_UUID = TargetTemperature_UUID\<rparr> v,
                           NowSet (JStr d) \<lparr>char_UUID = TargetTemperature_UUID\<rparr>], Inr ())
                    else ([Executing (JStr a) (JStr d), CouldNotDetermineValue (JStr a)],
                          Inr ()))))
   \<and> (findAccessoryByName accs (JStr d) = Inr (Some acc)
        \<and> findService acc (JStr d) = Inr (Some s)
        \<and> CharacteristicNotFound x \<in> set (fst (executeAction accs (intent a d)))
      \<longrightarrow> svc_kind s \<notin> {Lightbulb, Switch, Fan, Outlet, Thermostat})"
proof -
  let ?on = "\<lparr>char_UUID = On_UUID\<rparr>"
  let ?tt = "\<lparr>char_UUID = TargetTemperature_UUID\<rparr>"
  have 1: "svc_kind s \<in> {Lightbulb, Switch, Fan, Outlet}
      \<longrightarrow> getCharacteristicForService s = Some ?on"
    by (auto simp: getCharacteristicForService_def getCharacteristic_def)
  have 2: "svc_kind s = Thermostat \<longrightarrow> getCharacteristicForService s = Some ?tt"
    by (auto simp: getCharacteristicForService_def getCharacteristic_def)
  have 3: "svc_kind s \<notin> {Lightbulb, Switch, Fan, Outlet, Thermostat}
      \<longrightarrow> getCharacteristicForService s = None
        \<and> (findAccessoryByName accs (JStr d) = Inr (Some acc)
             \<and> findService acc (JStr d) = Inr (Some s)
           \<longrightarrow> executeAction accs (intent a d)
                 = ([Executing (JStr a) (JStr d), CharacteristicNotFound (svc_displayName s)],
                    Inr ()))"
    by (auto simp: getCharacteristicForService_def getCharacteristic_def executeAction_intent
        findAccessoryByName_string findService_string)
  have run: "\<exists>v. determineValueForAction (JStr a) c = Inr v
      \<and> executeAction accs (intent a d)
          = (if v \<noteq> JNull
             then ([Executing (JStr a) (JStr d), SetValue acc s c v, NowSet (JStr d) c], Inr ())
             else ([Executing (JStr a) (JStr d), CouldNotDetermineValue (JStr a)], Inr ()))"
    if "findAccessoryByName accs (JStr d) = Inr (Some acc)"
      "findService acc (JStr d) = Inr (Some s)"
      "getCharacteristicForService s = Some c" for c
  proof -
    from determineValueForAction_string obtain v
      where v: "determineValueForAction (JStr a) c = Inr v" by blast
    with executeAction_selected [OF that(1,2), of a] that(3) show ?thesis by simp
  qed
  have 4: "findAccessoryByName accs (JStr d) = Inr (Some acc)
        \<and> findService acc (JStr d) = Inr (Some s)
        \<and> svc_kind s \<in> {Lightbulb, Switch, Fan, Outlet}
      \<longrightarrow> (\<exists>v. determineValueForAction (JStr a) ?on = Inr v
             \<and> executeAction accs (intent a d)
                 = (if v \<noteq> JNull
                    then ([Executing (JStr a) (JStr d), SetValue acc s ?on v,
                           NowSet (JStr d) ?on], Inr ())
                    else ([Executing (JStr a) (JStr d), CouldNotDetermineValue (JStr a)],
                          Inr ())))"
    using run [of ?on] 1 by blast
  have 5: "findAccessoryByName accs (JStr d) = Inr (Some acc)
        \<and> findService acc (JStr d) = Inr (Some s)
        \<and> svc_kind s = Thermostat
      \<longrightarrow> (\<exists>v. determineValueForAction (JStr a) ?tt = Inr v
             \<and> executeAction accs (intent a d)
                 = (if v \<noteq> JNull
                    then ([Executing (JStr a) (JStr d), SetValue acc s ?tt v,
                           NowSet (JStr d) ?tt], Inr ())
                    else ([Executing (JStr a) (JStr d), CouldNotDetermineValue (JStr a)],
                          Inr ())))"
    using run [of ?tt] 2 by blast
  have 6: "findAccessoryByName accs (JStr d) = Inr (Some acc)
        \<and> findService acc (JStr d) = Inr (Some s)
        \<and> CharacteristicNotFound x \<in> set (fst (executeAction accs (intent a d)))
      \<longrightarrow> svc_kind s \<notin> {Lightbulb, Switch, Fan, Outlet, Thermostat}"
  proof
    assume h: "findAccessoryByName accs (JStr d) = Inr (Some acc)
        \<and> findService acc (JStr d) = Inr (Some s)
        \<and> CharacteristicNotFound x \<in> set (fst (executeAction accs (intent a d)))"
    then have "getCharacteristicForService s = None"
      using executeAction_CharacteristicNotFound by blast
    with 1 2 show "svc_kind s \<notin> {Lightbulb, Switch, Fan, Outlet, Thermostat}"
      by auto
  qed
  from 1 2 3 4 5 6 show ?thesis by blast
qed

theorem characteristic_table_witness:
  "getCharacteristicForService \<lparr>svc_displayName = ''Desk'', svc_kind = Switch\<rparr>
     = Some \<lparr>char_UUID = On_UUID\<rparr>
   \<and> getCharacteristicForService \<lparr>svc_displayName = ''Hallway'', svc_kind = Thermostat\<rparr>
     = Some \<lparr>char_UUID = TargetTemperature_UUID\<rparr>
   \<and> getCharacteristicForService \<lparr>svc_displayName = ''Garage Door'', svc_kind = OtherKind\<rparr>
     = None
   \<and> executeAction [garage_door] (intent ''turn on'' ''garage door'')
     = ([Executing (JStr ''turn on'') (JStr ''garage door''),
         CharacteristicNotFound ''Garage Door''], Inr ())
   \<and> executeAction [desk_switch, hallway_thermostat] (intent ''switch off'' ''desk'')
     = ([Executing (JStr ''switch off'') (JStr ''desk''),
         SetValue desk_switch \<lparr>svc_displayName = ''Desk'', svc_kind = Switch\<rparr>
           \<lparr>char_UUID = On_UUID\<rparr> (JBool False),
         NowSet (JStr ''desk'') \<lparr>char_UUID = On_UUID\<rparr>], Inr ())
   \<and> executeAction [desk_switch, hallway_thermostat]
       (intent ''set temperature to 21'' ''hallway'')
     = ([Executing (JStr ''set temperature to 21'') (JStr ''hallway''),
         SetValue hallway_thermostat \<lparr>svc_displayName = ''Hallway'', svc_kind = Thermostat\<rparr>
           \<lparr>char_UUID = TargetTemperature_UUID\<rparr> (JNum 21),
         NowSet (JStr ''hallway'') \<lparr>char_UUID = TargetTemperature_UUID\<rparr>], Inr ())"
proof -
  let ?g = "\<lparr>svc_displayName = ''Garage Door'', svc_kind = OtherKind\<rparr>"
  let ?d = "\<lparr>svc_displayName = ''Desk'', svc_kind = Switch\<rparr>"
  let ?h = "\<lparr>svc_displayName = ''Hallway'', svc_kind = Thermostat\<rparr>"
  let ?on = "\<lparr>char_UUID = On_UUID\<rparr>"
  let ?tt = "\<lparr>char_UUID = TargetTemperature_UUID\<rparr>"
  let ?accs = "[desk_switch, hallway_thermostat]"
  have found: "findAccessoryByName [garage_door] (JStr ''garage door'') = Inr (Some garage_door)
      \<and> findService garage_door (JStr ''garage door'') = Inr (Some ?g)"
    by code_simp
  from characteristic_table [of ?d]
  have r1: "getCharacteristicForService ?d = Some ?on"
    by simp
  from characteristic_table [of ?h]
  have r2: "getCharacteristicForService ?h = Some ?tt"
    by simp
  from characteristic_table [of ?g "[garage_door]" "''garage door''" garage_door "''turn on''"]
    found
  have r3: "getCharacteristicForService ?g = None
      \<and> executeAction [garage_door] (intent ''turn on'' ''garage door'')
        = ([Executing (JStr ''turn on'') (JStr ''garage door''),
            CharacteristicNotFound ''Garage Door''], Inr ())"
    by simp
  have fd: "findAccessoryByName ?accs (JStr ''desk'') = Inr (Some desk_switch)
      \<and> findService desk_switch (JStr ''desk'') = Inr (Some ?d)
      \<and> svc_kind ?d \<in> {Lightbulb, Switch, Fan, Outlet}"
    by code_simp
  have vd: "determineValueForAction (JStr ''switch off'') ?on = Inr (JBool False)"
    by code_simp
  from characteristic_table [of ?d ?accs "''desk''" desk_switch "''switch off''"] fd
  obtain v where "determineValueForAction (JStr ''switch off'') ?on = Inr v"
    and "executeAction ?accs (intent ''switch off'' ''desk'')
      = (if v \<noteq> JNull
         then ([Executing (JStr ''switch off'') (JStr ''desk''), SetValue desk_switch ?d ?on v,
                NowSet (JStr ''desk'') ?on], Inr ())
         else ([Executing (JStr ''switch off'') (JStr ''desk''),
                CouldNotDetermineValue (JStr ''switch off'')], Inr ()))"
    by blast
  with vd have r4: "executeAction ?accs (intent ''switch off'' ''desk'')
     = ([Executing (JStr ''switch off'') (JStr ''desk''),
         SetValue desk_switch ?d ?on (JBool False), NowSet (JStr ''desk'') ?on], Inr ())"
    by simp
  have fh: "findAccessoryByName ?accs (JStr ''hallway'') = Inr (Some hallway_thermostat)
      \<and> findService hallway_thermostat (JStr ''hallway'') = Inr (Some ?h)
      \<and> svc_kind ?h = Thermostat"
    by code_simp
  have vh: "determineValueForAction (JStr ''set temperature to 21'') ?tt = Inr (JNum 21)"
    by code_simp
  from characteristic_table
    [of ?h ?accs "''hallway''" hallway_thermostat "''set temperature to 21''"] fh
  obtain w where "determineValueForAction (JStr ''set temperature to 21'') ?tt = Inr w"
    and "executeAction ?accs (intent ''set temperature to 21'' ''hallway'')
      = (if w \<noteq> JNull
         then ([Executing (JStr ''set temperature to 21'') (JStr ''hallway''),
                SetValue hallway_thermostat ?h ?tt w, NowSet (JStr ''hallway'') ?tt], Inr ())
         else ([Executing (JStr ''set temperature to 21'') (JStr ''hallway''),
                CouldNotDetermineValue (JStr ''set temperature to 21'')], Inr ()))"
    by blast
  with vh have r5: "executeAction ?accs (intent ''set temperature to 21'' ''hallway'')
     = ([Executing (JStr ''set temperature to 21'') (JStr ''hallway''),
         SetValue hallway_thermostat ?h ?tt (JNum 21), NowSet (JStr ''hallway'') ?tt], Inr ())"
    by simp
  from r1 r2 r3 r4 r5 show ?thesis by blast
qed

section \<open>The power rule\<close>

text \<open>
  The second sentence of claim C1 as written, "an action whose lower-case form contains
  turn off or switch off yields false", fails on an action that contains an on-phrase as
  well.
\<close>

theorem off_phrase_with_on_phrase_counterexample:
  "off_phrase (toLowerCase ''Turn on the lamp, do not turn off'')
   \<and> determineValueForAction (JStr ''Turn on the lamp, do not turn off'')
        \<lparr>char_UUID = On_UUID\<rparr> = Inr (JBool True)"
proof -
  have "off_phrase (toLowerCase ''Turn on the lamp, do not turn off'')"
    unfolding off_phrase_def by code_simp
  moreover have "on_phrase (toLowerCase ''Turn on the lamp, do not turn off'')"
    unfolding on_phrase_def by code_simp
  ultimately show ?thesis
    by (simp add: determineValueForAction_On)
qed

text \<open>
  Claim C1, amended. For a characteristic of type On and every action string, the value
  is decided on the lower-case form of the action by containment: an on-phrase
  ("turn on", "switch on") yields \<^verbatim>\<open>true\<close>; an off-phrase ("turn off",
  "switch off") with no on-phrase yields \<^verbatim>\<open>false\<close>; with none of the four
  phrases no value is determined, and a dispatch that has reached this characteristic
  logs that the value could not be determined and writes nothing.
\<close>

theorem power_rule:
  assumes "char_UUID c = On_UUID"
  shows "(on_phrase (toLowerCase a)
            \<longrightarrow> determineValueForAction (JStr a) c = Inr (JBool True))
       \<and> (off_phrase (toLowerCase a) \<and> \<not> on_phrase (toLowerCase a)
            \<longrightarrow> determineValueForAction (JStr a) c = Inr (JBool False))
       \<and> (\<not> on_phrase (toLowerCase a) \<and> \<not> off_phrase (toLowerCase a)
            \<longrightarrow> determineValueForAction (JStr a) c = Inr JNull
              \<and> (findAccessoryByName accs (JStr d) = Inr (Some acc)
                   \<and> findService acc (JStr d) = Inr (Some s)
                   \<and> getCharacteristicForService s = Some c
                 \<longrightarrow> executeAction accs (intent a d)
                       = ([Executing (JStr a) (JStr d), CouldNotDetermineValue (JStr a)],
                          Inr ())))"
  by (simp add: determineValueForAction_On [OF assms] executeAction_intent
      findAccessoryByName_string findService_string)

theorem power_rule_witness:
  "determineValueForAction (JStr ''Please Turn On the light'') \<lparr>char_UUID = On_UUID\<rparr>
     = Inr (JBool True)
   \<and> determineValueForAction (JStr ''SWITCH OFF'') \<lparr>char_UUID = On_UUID\<rparr>
     = Inr (JBool False)
   \<and> determineValueForAction (JStr ''dim the light'') \<lparr>char_UUID = On_UUID\<rparr> = Inr JNull
   \<and> executeAction [living_room_light] (intent ''dim the light'' ''living room light'')
     = ([Executing (JStr ''dim the light'') (JStr ''living room light''),
         CouldNotDetermineValue (JStr ''dim the light'')], Inr ())"
proof -
  let ?c = "\<lparr>char_UUID = On_UUID\<rparr>"
  let ?s = "\<lparr>svc_displayName = ''Living Room Light'', svc_kind = Lightbulb\<rparr>"
  have c: "char_UUID ?c = On_UUID" by simp
  have on1: "on_phrase (toLowerCase ''Please Turn On the light'')"
    unfolding on_phrase_def by code_simp
  have off2: "off_phrase (toLowerCase ''SWITCH OFF'') \<and> \<not> on_phrase (toLowerCase ''SWITCH OFF'')"
    unfolding on_phrase_def off_phrase_def by code_simp
  have none3: "\<not> on_phrase (toLowerCase ''dim the light'')
      \<and> \<not> off_phrase (toLowerCase ''dim the light'')"
    unfolding on_phrase_def off_phrase_def by code_simp
  have found: "findAccessoryByName [living_room_light] (JStr ''living room light'')
        = Inr (Some living_room_light)
      \<and> findService living_room_light (JStr ''living room light'') = Inr (Some ?s)
      \<and> getCharacteristicForService ?s = Some ?c"
    by code_simp
  from power_rule [OF c, of "''Please Turn On the light''"] on1
  have r1: "determineValueForAction (JStr ''Please Turn On the light'') ?c = Inr (JBool True)"
    by blast
  from power_rule [OF c, of "''SWITCH OFF''"] off2
  have r2: "determineValueForAction (JStr ''SWITCH OFF'') ?c = Inr (JBool False)"
    by blast
  from power_rule [OF c, of "''dim the light''" "[living_room_light]" "''living room light''"
      living_room_light ?s] none3 found
  have r3: "determineValueForAction (JStr ''dim the light'') ?c = Inr JNull
      \<and> executeAction [living_room_light] (intent ''dim the light'' ''living room light'')
        = ([Executing (JStr ''dim the light'') (JStr ''living room light''),
            CouldNotDetermineValue (JStr ''dim the light'')], Inr ())"
    by blast
  from r1 r2 r3 show ?thesis by blast
qed

lemma on_off_example:
  "on_phrase (toLowerCase ''Turn off, then TURN ON'')
   \<and> off_phrase (toLowerCase ''Turn off, then TURN ON'')"
  unfolding on_phrase_def off_phrase_def by code_simp

text \<open>
  Claim C9. For a characteristic of type On, an action whose lower-case form contains
  both an on-phrase ("turn on" or "switch on") and an off-phrase ("turn off" or
  "switch off") yields \<^verbatim>\<open>true\<close>, since the on-phrases are tested first; the value
  \<^verbatim>\<open>false\<close> is produced only when no on-phrase occurs anywhere in the text.
\<close>

theorem on_phrase_tested_first:
  assumes "char_UUID c = On_UUID"
  shows "(on_phrase (toLowerCase a) \<and> off_phrase (toLowerCase a)
            \<longrightarrow> determineValueForAction (JStr a) c = Inr (JBool True))
         \<and> (determineValueForAction (JStr a) c = Inr (JBool False)
            \<longrightarrow> \<not> on_phrase (toLowerCase a))"
proof (cases "on_phrase (toLowerCase a)")
  case True
  then have "determineValueForAction (JStr a) c = Inr (JBool True)"
    by (simp add: determineValueForAction_On [OF assms])
  with True show ?thesis by simp
next
  case False
  then show ?thesis by simp
qed

theorem on_phrase_tested_first_witness:
  "char_UUID \<lparr>char_UUID = On_UUID\<rparr> = On_UUID
   \<and> on_phrase (toLowerCase ''Turn off, then TURN ON'')
   \<and> off_phrase (toLowerCase ''Turn off, then TURN ON'')
   \<and> determineValueForAction (JStr ''Turn off, then TURN ON'') \<lparr>char_UUID = On_UUID\<rparr>
       = Inr (JBool True)"
  using on_phrase_tested_first [of "\<lparr>char_UUID = On_UUID\<rparr>" "''Turn off, then TURN ON''"]
    on_off_example
  by simp

section \<open>Numbers\<close>

lemma bit_length_nonpos: "n \<le> 0 \<Longrightarrow> bit_length n = 0"
  by (subst bit_length.simps) simp

lemma bit_length_pos: "0 < n \<Longrightarrow> bit_length n = Suc (bit_length (n div 2))"
  by (subst bit_length.simps) simp

lemma bit_length_le: "n < 2 ^ k \<Longrightarrow> bit_length n \<le> k"
proof (induction k arbitrary: n)
  case 0
  then show ?case by (simp add: bit_length_nonpos)
next
  case (Suc k)
  show ?case
  proof (cases "n \<le> 0")
    case True
    then show ?thesis by (simp add: bit_length_nonpos)
  next
    case False
    from Suc.prems have "n div 2 < 2 ^ k" by simp
    from Suc.IH [OF this] False show ?thesis
      by (simp add: bit_length_pos)
  qed
qed

lemma Number_of_int_exact: "n \<le> 2 ^ 53 \<Longrightarrow> Number_of_int n = JNum n"
proof (cases "n = 2 ^ 53")
  case True
  have "Number_of_int 9007199254740992 = JNum 9007199254740992"
    by code_simp
  with True show ?thesis by simp
next
  case False
  assume "n \<le> 2 ^ 53"
  with False have "n < 2 ^ 53" by simp
  then have "bit_length n \<le> 53" by (rule bit_length_le)
  then show ?thesis by (simp add: Number_of_int_def)
qed

text \<open>An integer of 310 digits is beyond the doubles.\<close>

lemma Number_of_int_Infinity: "Number_of_int (10 ^ 309) = JInfinity"
  by code_simp

section \<open>The temperature rule\<close>

lemma determineValueForAction_Temperature:
  assumes "char_UUID c = TargetTemperature_UUID"
  shows "determineValueForAction (JStr a) c = Inr (temperature_rule (toLowerCase a) c)"
  using assms UUIDs_distinct by (simp add: determineValueForAction_def)

lemma temperature_rule_extracted:
  assumes "char_UUID c = TargetTemperature_UUID" "extracted_digits s ds"
  shows "temperature_rule s c = Number_of_int (digits_value ds)"
proof -
  from assms(2) have "ds \<noteq> []"
    unfolding extracted_digits_def phrase_parts_def by blast
  with extracted_digits_js_match [OF assms(2)] assms(1) show ?thesis
    by (simp add: temperature_rule_def parseInt10_def)
qed

lemma temperature_rule_no_phrase:
  assumes "\<not> (\<exists>ds. temperature_phrase s ds)"
  shows "temperature_rule s c = JNull"
proof (cases "js_match temperature_re s")
  case None
  then show ?thesis by (simp add: temperature_rule_def)
next
  case (Some caps)
  from js_match_temperature_extracted [OF Some] assms show ?thesis
    using extracted_digits_phrase by blast
qed

lemma js_match_72:
  "js_match temperature_re (toLowerCase ''please set the thermostat temperature to 72 degrees'')
     = Some [''72'']"
  by code_simp

lemma parseInt10_72: "parseInt10 ''72'' = JNum 72"
  by code_simp

text \<open>The dot of the expression does not cross a line break.\<close>

lemma temperature_rule_one_line:
  "determineValueForAction (JStr (''set'' @ nl @ ''temperature to 5''))
     \<lparr>char_UUID = TargetTemperature_UUID\<rparr> = Inr JNull"
  by code_simp

text \<open>
  Claim C2 as written, "the value is the extracted integer", fails on an integer that is
  no double: the digits extracted denote 9007199254740993 and the value is the Number
  9007199254740992.
\<close>

theorem extracted_integer_not_returned_counterexample:
  "extracted_digits (toLowerCase ''set temperature to 9007199254740993'') ''9007199254740993''
   \<and> digits_value ''9007199254740993'' = 9007199254740993
   \<and> determineValueForAction (JStr ''set temperature to 9007199254740993'')
        \<lparr>char_UUID = TargetTemperature_UUID\<rparr> = Inr (JNum 9007199254740992)"
proof -
  have m: "js_match temperature_re (toLowerCase ''set temperature to 9007199254740993'')
      = Some [''9007199254740993'']"
    by code_simp
  from js_match_temperature_extracted [OF m]
  have e: "extracted_digits (toLowerCase ''set temperature to 9007199254740993'')
      ''9007199254740993''"
    by simp
  have d: "digits_value ''9007199254740993'' = 9007199254740993"
    by code_simp
  have v: "determineValueForAction (JStr ''set temperature to 9007199254740993'')
        \<lparr>char_UUID = TargetTemperature_UUID\<rparr> = Inr (JNum 9007199254740992)"
    by code_simp
  from e d v show ?thesis by blast
qed

text \<open>
  Claim C2, amended. For a characteristic of type TargetTemperature and every action
  string: when the lower-case form of the action has the shape
  "set ... temperature ... to <integer>" (each infix any run of characters other than
  line terminators, which is what the expression of the source accepts), the digits
  extracted are those of the phrase that starts leftmost and, among the phrases starting
  there, has its "to " rightmost, and the value is the Number for the integer they denote:
  the integer itself up to \<open>2 ^ 53\<close>, beyond that the double nearest to it. When the
  action has no such shape, no value is determined. The action
  "please set the thermostat temperature to 72 degrees" yields 72.
\<close>

theorem temperature_rule_extracts_number:
  assumes "char_UUID c = TargetTemperature_UUID"
  shows "(extracted_digits (toLowerCase a) ds
            \<longrightarrow> determineValueForAction (JStr a) c = Inr (Number_of_int (digits_value ds)))
       \<and> (extracted_digits (toLowerCase a) ds \<and> digits_value ds \<le> 2 ^ 53
            \<longrightarrow> determineValueForAction (JStr a) c = Inr (JNum (digits_value ds)))
       \<and> (extracted_digits (toLowerCase a) ds \<and> extracted_digits (toLowerCase a) ds'
            \<longrightarrow> ds = ds')
       \<and> ((\<exists>x. temperature_phrase (toLowerCase a) x)
            \<longrightarrow> (\<exists>x. extracted_digits (toLowerCase a) x))
       \<and> (\<not> (\<exists>x. temperature_phrase (toLowerCase a) x)
            \<longrightarrow> determineValueForAction (JStr a) c = Inr JNull)
       \<and> determineValueForAction
            (JStr ''please set the thermostat temperature to 72 degrees'') c = Inr (JNum 72)"
proof -
  note d = determineValueForAction_Temperature [OF assms]
  have 1: "extracted_digits (toLowerCase a) ds
      \<longrightarrow> determineValueForAction (JStr a) c = Inr (Number_of_int (digits_value ds))"
    unfolding d using temperature_rule_extracted [OF assms] by blast
  have 2: "extracted_digits (toLowerCase a) ds \<and> digits_value ds \<le> 2 ^ 53
      \<longrightarrow> determineValueForAction (JStr a) c = Inr (JNum (digits_value ds))"
    using 1 Number_of_int_exact by auto
  have 3: "extracted_digits (toLowerCase a) ds \<and> extracted_digits (toLowerCase a) ds'
      \<longrightarrow> ds = ds'"
    using extracted_digits_unique by blast
  have 4: "(\<exists>x. temperature_phrase (toLowerCase a) x)
      \<longrightarrow> (\<exists>x. extracted_digits (toLowerCase a) x)"
    using temperature_phrase_extracted by blast
  have 5: "\<not> (\<exists>x. temperature_phrase (toLowerCase a) x)
      \<longrightarrow> determineValueForAction (JStr a) c = Inr JNull"
    unfolding d using temperature_rule_no_phrase by blast
  have 6: "determineValueForAction
      (JStr ''please set the thermostat temperature to 72 degrees'') c = Inr (JNum 72)"
    unfolding d
    by (simp only: temperature_rule_def assms js_match_72 parseInt10_72 option.case
        list.case list.distinct simp_thms if_True)
  from 1 2 3 4 5 6 show ?thesis by blast
qed

theorem temperature_rule_extracts_number_witness:
  "extracted_digits (toLowerCase ''Set the TEMPERATURE to 18, then to 25 please'') ''25''
   \<and> determineValueForAction (JStr ''Set the TEMPERATURE to 18, then to 25 please'')
        \<lparr>char_UUID = TargetTemperature_UUID\<rparr> = Inr (JNum 25)
   \<and> determineValueForAction (JStr ''set temperature to 100000000000000000000000'')
        \<lparr>char_UUID = TargetTemperature_UUID\<rparr> = Inr (JNum 99999999999999991611392)
   \<and> determineValueForAction (JStr ''make it warmer'')
        \<lparr>char_UUID = TargetTemperature_UUID\<rparr> = Inr JNull
   \<and> determineValueForAction (JStr ''please set the thermostat temperature to 72 degrees'')
        \<lparr>char_UUID = TargetTemperature_UUID\<rparr> = Inr (JNum 72)"
proof -
  let ?c = "\<lparr>char_UUID = TargetTemperature_UUID\<rparr>"
  let ?a = "''Set the TEMPERATURE to 18, then to 25 please''"
  let ?b = "''set temperature to 100000000000000000000000''"
  have c: "char_UUID ?c = TargetTemperature_UUID" by simp
  have m: "js_match temperature_re (toLowerCase ?a) = Some [''25'']"
    by code_simp
  from js_match_temperature_extracted [OF m]
  have e: "extracted_digits (toLowerCase ?a) ''25''" by simp
  have dv: "digits_value ''25'' = 25"
    by code_simp
  then have small: "digits_value ''25'' \<le> 2 ^ 53"
    by simp
  from temperature_rule_extracts_number [OF c, of ?a "''25''"] e small
  have "determineValueForAction (JStr ?a) ?c = Inr (JNum (digits_value ''25''))"
    by blast
  then have r1: "determineValueForAction (JStr ?a) ?c = Inr (JNum 25)"
    by (simp only: dv)
  have mb: "js_match temperature_re (toLowerCase ?b) = Some [''100000000000000000000000'']"
    by code_simp
  from js_match_temperature_extracted [OF mb]
  have eb: "extracted_digits (toLowerCase ?b) ''100000000000000000000000''" by simp
  have nb: "Number_of_int (digits_value ''100000000000000000000000'')
      = JNum 99999999999999991611392"
    by code_simp
  from temperature_rule_extracts_number [OF c, of ?b "''100000000000000000000000''"] eb
  have "determineValueForAction (JStr ?b) ?c
      = Inr (Number_of_int (digits_value ''100000000000000000000000''))"
    by blast
  then have r2: "determineValueForAction (JStr ?b) ?c = Inr (JNum 99999999999999991611392)"
    by (simp only: nb)
  have n: "js_match temperature_re (toLowerCase ''make it warmer'') = None"
    by code_simp
  have no: "\<not> (\<exists>x. temperature_phrase (toLowerCase ''make it warmer'') x)"
    using js_match_temperature_complete n by blast
  from temperature_rule_extracts_number [OF c, of "''make it warmer''"] no
  have r3: "determineValueForAction (JStr ''make it warmer'') ?c = Inr JNull
      \<and> determineValueForAction (JStr ''please set the thermostat temperature to 72 degrees'')
          ?c = Inr (JNum 72)"
    by blast
  from e r1 r2 r3 show ?thesis by blast
qed

section \<open>The resolver on a reply\<close>

lemma processCommand_events:
  "fst (processCommand P C dj cmd) = [RemoteCall (build_prompt dj cmd)]"
  by (simp add: processCommand_def Let_def split: sum.splits option.splits)

lemma processCommand_parsed:
  assumes "C (build_prompt dj cmd) = Inr (Some t)" "trim t \<noteq> []" "P (trim t) = Some v"
  shows "processCommand P C dj cmd = ([RemoteCall (build_prompt dj cmd)], Inr v)"
  using assms by (simp add: processCommand_def Let_def)

lemma processCommand_errors:
  assumes "snd (processCommand P C dj cmd) = Inl e"
  shows "C (build_prompt dj cmd) = Inl e \<or> e = Error ''No response from AI''
         \<or> (\<exists>r. e = Error (''Failed to parse AI response: '' @ r))"
  using assms
  by (auto simp: processCommand_def Let_def split: sum.splits option.splits if_splits)

lemma trim_examples:
  \<open>trim ''{"action":"turn on"}'' = ''{"action":"turn on"}''\<close>
  \<open>trim ''{"action":"turn on","device":"Lamp"}'' = ''{"action":"turn on","device":"Lamp"}''\<close>
  \<open>trim ''{"action":"turn on","device":"Garage Door"}''
     = ''{"action":"turn on","device":"Garage Door"}''\<close>
  \<open>trim ''  {"action":"turn off","device":"Lamp"}  '' = ''{"action":"turn off","device":"Lamp"}''\<close>
  by code_simp+

text \<open>
  Claim C3 says that a reply which parses as JSON but lacks the action or the device
  field makes the resolver fail. On the reply \<^verbatim>\<open>{"action":"turn on"}\<close> the resolver
  returns the parsed object as it is, an object without a device field.
\<close>

theorem processCommand_returns_partial_intent:
  \<open>processCommand
     (map_of [(''{"action":"turn on"}'', JObj [(''action'', JStr ''turn on'')])])
     (replies_with ''{"action":"turn on"}'') ''[]'' ''turn on the lamp''
   = ([RemoteCall (build_prompt ''[]'' ''turn on the lamp'')],
      Inr (JObj [(''action'', JStr ''turn on'')]))
   \<and> \<not> has_both_fields (JObj [(''action'', JStr ''turn on'')])\<close>
proof -
  have \<open>\<not> has_both_fields (JObj [(''action'', JStr ''turn on'')])\<close>
    by (simp add: has_both_fields_def own_prop_def)
  moreover have \<open>processCommand
     (map_of [(''{"action":"turn on"}'', JObj [(''action'', JStr ''turn on'')])])
     (replies_with ''{"action":"turn on"}'') ''[]'' ''turn on the lamp''
   = ([RemoteCall (build_prompt ''[]'' ''turn on the lamp'')],
      Inr (JObj [(''action'', JStr ''turn on'')]))\<close>
    by (rule processCommand_parsed [where t = \<open>''{"action":"turn on"}''\<close>])
      (simp_all add: replies_with_def trim_examples)
  ultimately show ?thesis by blast
qed

text \<open>
  Claim C4 as written, "on an empty command the resolver fails without calling the
  completion service", fails on the empty command: the service is called and, when its
  reply parses, the resolver returns the parsed value.
\<close>

theorem empty_command_reaches_service_counterexample:
  \<open>trim '''' = ''''
   \<and> processCommand
       (map_of [(''{"action":"turn on","device":"Lamp"}'', intent ''turn on'' ''Lamp'')])
       (replies_with ''{"action":"turn on","device":"Lamp"}'') ''[]'' ''''
     = ([RemoteCall (build_prompt ''[]'' '''')], Inr (intent ''turn on'' ''Lamp''))\<close>
proof -
  have \<open>trim '''' = ''''\<close> by (simp add: trim_def)
  moreover have \<open>processCommand
       (map_of [(''{"action":"turn on","device":"Lamp"}'', intent ''turn on'' ''Lamp'')])
       (replies_with ''{"action":"turn on","device":"Lamp"}'') ''[]'' ''''
     = ([RemoteCall (build_prompt ''[]'' '''')], Inr (intent ''turn on'' ''Lamp''))\<close>
    by (rule processCommand_parsed [where t = \<open>''{"action":"turn on","device":"Lamp"}''\<close>])
      (simp_all add: replies_with_def trim_examples)
  ultimately show ?thesis by blast
qed

text \<open>
  Claim C4, amended. For every command string, the empty and the whitespace-only ones
  included, the resolver calls the completion service exactly once, with the prompt
  built from the command, and returns what the trimmed reply parses to; when it fails,
  the error is the one of the service call, "No response from AI" or
  "Failed to parse AI response", never one about the command being empty.
\<close>

theorem processCommand_calls_service_once:
  "fst (processCommand P C dj cmd) = [RemoteCall (build_prompt dj cmd)]
   \<and> (C (build_prompt dj cmd) = Inr (Some t) \<and> trim t \<noteq> [] \<and> P (trim t) = Some v
        \<longrightarrow> snd (processCommand P C dj cmd) = Inr v)
   \<and> (snd (processCommand P C dj cmd) = Inl e
        \<longrightarrow> C (build_prompt dj cmd) = Inl e \<or> e = Error ''No response from AI''
            \<or> (\<exists>r. e = Error (''Failed to parse AI response: '' @ r)))"
  using processCommand_events [of P C dj cmd] processCommand_parsed [of C dj cmd t P v]
    processCommand_errors [of P C dj cmd e]
  by auto

theorem processCommand_calls_service_once_witness:
  \<open>trim [CHR '' '', CHR 0x09, CHR '' ''] = ''''
   \<and> processCommand
        (map_of [(''{"action":"turn off","device":"Lamp"}'', intent ''turn off'' ''Lamp'')])
        (replies_with ''  {"action":"turn off","device":"Lamp"}  '') ''[]''
        [CHR '' '', CHR 0x09, CHR '' '']
      = ([RemoteCall (build_prompt ''[]'' [CHR '' '', CHR 0x09, CHR '' ''])],
         Inr (intent ''turn off'' ''Lamp''))
   \<and> processCommand Map.empty (rejects_with (Error ''Request failed with status code 429''))
        ''[]'' ''''
      = ([RemoteCall (build_prompt ''[]'' '''')],
         Inl (Error ''Request failed with status code 429''))\<close>
proof -
  let ?P = \<open>map_of [(''{"action":"turn off","device":"Lamp"}'', intent ''turn off'' ''Lamp'')]\<close>
  let ?C = \<open>replies_with ''  {"action":"turn off","device":"Lamp"}  ''\<close>
  let ?cmd = \<open>[CHR '' '', CHR 0x09, CHR '' '']\<close>
  let ?R = \<open>rejects_with (Error ''Request failed with status code 429'')\<close>
  have ws: \<open>trim ?cmd = ''''\<close> by code_simp
  have h: \<open>?C (build_prompt ''[]'' ?cmd) = Inr (Some ''  {"action":"turn off","device":"Lamp"}  '')
      \<and> trim ''  {"action":"turn off","device":"Lamp"}  '' \<noteq> []
      \<and> ?P (trim ''  {"action":"turn off","device":"Lamp"}  '') = Some (intent ''turn off'' ''Lamp'')\<close>
    by (simp add: replies_with_def trim_examples)
  from processCommand_calls_service_once [of ?P ?C \<open>''[]''\<close> ?cmd
      \<open>''  {"action":"turn off","device":"Lamp"}  ''\<close> \<open>intent ''turn off'' ''Lamp''\<close>] h
  have \<open>fst (processCommand ?P ?C ''[]'' ?cmd) = [RemoteCall (build_prompt ''[]'' ?cmd)]
      \<and> snd (processCommand ?P ?C ''[]'' ?cmd) = Inr (intent ''turn off'' ''Lamp'')\<close>
    by blast
  then have r1: \<open>processCommand ?P ?C ''[]'' ?cmd
      = ([RemoteCall (build_prompt ''[]'' ?cmd)], Inr (intent ''turn off'' ''Lamp''))\<close>
    by (simp add: prod_eq_iff)
  have r2: \<open>processCommand Map.empty ?R ''[]'' ''''
      = ([RemoteCall (build_prompt ''[]'' '''')],
         Inl (Error ''Request failed with status code 429''))\<close>
    by (simp add: processCommand_def rejects_with_def)
  from ws r1 r2 show ?thesis by blast
qed

section \<open>The HTTP endpoint\<close>

text \<open>
  \<open>handleUserCommand\<close> catches every error of the pipeline, so the handler of the
  endpoint never takes its own \<^verbatim>\<open>catch\<close> branch.
\<close>

lemma handleUserCommand_returns:
  "snd (handleUserCommand P C dj accs cmd) = Inr ()"
  by (simp add: handleUserCommand_def split: prod.splits sum.splits)

lemma post_command_always_200:
  "snd (post_command P C dj accs cmd)
     = \<lparr>status = 200, body = ''Command executed successfully.''\<rparr>"
  using handleUserCommand_returns [of P C dj accs cmd]
  by (cases "handleUserCommand P C dj accs cmd") (simp add: post_command_def)

text \<open>
  Claim C8 says that the endpoint answers 500 when a stage of the pipeline fails. In a
  run where the device of the Intent is not in the inventory, and in a run where the
  call of the completion service is rejected, the failure is logged and the endpoint
  answers 200 with the success message.
\<close>

theorem post_command_reports_success_on_failure:
  \<open>post_command
     (map_of [(''{"action":"turn on","device":"Garage Door"}'',
               intent ''turn on'' ''Garage Door'')])
     (replies_with ''{"action":"turn on","device":"Garage Door"}'') ''[]''
     [living_room_light] ''open the garage door''
   = ([ReceivedCommand ''open the garage door'',
       RemoteCall (build_prompt ''[]'' ''open the garage door''),
       AccessoryNotFound (JStr ''Garage Door'')],
      \<lparr>status = 200, body = ''Command executed successfully.''\<rparr>)
   \<and> post_command Map.empty (rejects_with (Error ''Request failed with status code 429''))
       ''[]'' [living_room_light] ''turn on the living room light''
   = ([ReceivedCommand ''turn on the living room light'',
       RemoteCall (build_prompt ''[]'' ''turn on the living room light''),
       ErrorProcessingCommand (Error ''Request failed with status code 429'')],
      \<lparr>status = 200, body = ''Command executed successfully.''\<rparr>)\<close>
proof -
  let ?t = \<open>''{"action":"turn on","device":"Garage Door"}''\<close>
  let ?P = \<open>map_of [(?t, intent ''turn on'' ''Garage Door'')]\<close>
  have p: \<open>processCommand ?P (replies_with ?t) ''[]'' ''open the garage door''
      = ([RemoteCall (build_prompt ''[]'' ''open the garage door'')],
         Inr (intent ''turn on'' ''Garage Door''))\<close>
    by (rule processCommand_parsed [where t = ?t])
      (simp_all add: replies_with_def trim_examples)
  have nf: \<open>find (\<lambda>x. equal_up_to_case (acc_displayName x) ''Garage Door'') [living_room_light]
      = None\<close>
    by code_simp
  have e: \<open>executeAction [living_room_light] (intent ''turn on'' ''Garage Door'')
      = ([AccessoryNotFound (JStr ''Garage Door'')], Inr ())\<close>
    by (simp only: executeAction_intent nf option.case)
  have r1: \<open>post_command ?P (replies_with ?t) ''[]'' [living_room_light] ''open the garage door''
   = ([ReceivedCommand ''open the garage door'',
       RemoteCall (build_prompt ''[]'' ''open the garage door''),
       AccessoryNotFound (JStr ''Garage Door'')],
      \<lparr>status = 200, body = ''Command executed successfully.''\<rparr>)\<close>
    unfolding post_command_def handleUserCommand_def p by (simp add: e)
  have q: \<open>processCommand Map.empty (rejects_with (Error ''Request failed with status code 429''))
      ''[]'' ''turn on the living room light''
      = ([RemoteCall (build_prompt ''[]'' ''turn on the living room light'')],
         Inl (Error ''Request failed with status code 429''))\<close>
    by (simp add: processCommand_def rejects_with_def)
  have r2: \<open>post_command Map.empty (rejects_with (Error ''Request failed with status code 429''))
       ''[]'' [living_room_light] ''turn on the living room light''
   = ([ReceivedCommand ''turn on the living room light'',
       RemoteCall (build_prompt ''[]'' ''turn on the living room light''),
       ErrorProcessingCommand (Error ''Request failed with status code 429'')],
      \<lparr>status = 200, body = ''Command executed successfully.''\<rparr>)\<close>
    unfolding post_command_def handleUserCommand_def q by simp
  from r1 r2 show ?thesis by blast
qed

end
